theory Spec2Isabelle
  imports Complex_Main "HOL-Library.Multiset" "HOL-Library.Product_Lexorder"
    "HOL-Library.Log_Nat"
begin

section \<open>JavaScript numbers\<close>

text \<open>
  A JavaScript number is a finite double, one of the two infinities, or NaN. A finite
  value is carried as the real number it denotes, and the two signed zeros are one value.
  The special values are kept, with the arithmetic and the comparisons the language gives
  them, because the timer's statistics produce and test them.

  The operations \<open>js_add\<close>, \<open>js_sub\<close>, \<open>js_mul\<close> and \<open>js_div\<close> of this section give
  the exact result on finite values. The operations of the language round that result to
  the nearest double: they are \<open>d_add\<close>, \<open>d_sub\<close>, \<open>d_mul\<close> and \<open>d_div\<close> of the
  next section. The effective time, the rolling average and the split ratios are written
  with the exact operations, so the rounding of the values they return is not modelled.
  The parser of typed times and the mean of the statistics panel are written with the
  rounded operations.
\<close>

datatype jsnum = Fin real | PInf | NInf | NaN

fun js_neg :: "jsnum \<Rightarrow> jsnum" where
  "js_neg (Fin a) = Fin (- a)"
| "js_neg PInf = NInf"
| "js_neg NInf = PInf"
| "js_neg NaN = NaN"

fun js_add :: "jsnum \<Rightarrow> jsnum \<Rightarrow> jsnum" where
  "js_add NaN b = NaN"
| "js_add a NaN = NaN"
| "js_add (Fin a) (Fin b) = Fin (a + b)"
| "js_add PInf NInf = NaN"
| "js_add NInf PInf = NaN"
| "js_add PInf b = PInf"
| "js_add a PInf = PInf"
| "js_add NInf b = NInf"
| "js_add a NInf = NInf"

definition js_sub :: "jsnum \<Rightarrow> jsnum \<Rightarrow> jsnum" where
  "js_sub a b = js_add a (js_neg b)"

text \<open>The sign of a number: 1, 0 or -1, and 0 for NaN (which has none).\<close>

fun js_sign :: "jsnum \<Rightarrow> int" where
  "js_sign (Fin a) = (if 0 < a then 1 else if a < 0 then -1 else 0)"
| "js_sign PInf = 1"
| "js_sign NInf = -1"
| "js_sign NaN = 0"

fun js_mul :: "jsnum \<Rightarrow> jsnum \<Rightarrow> jsnum" where
  "js_mul NaN b = NaN"
| "js_mul a NaN = NaN"
| "js_mul (Fin a) (Fin b) = Fin (a * b)"
| "js_mul a b =
     (if js_sign a * js_sign b = 0 then NaN
      else if 0 < js_sign a * js_sign b then PInf else NInf)"

text \<open>
  Division. A zero divisor is taken as the positive zero: the only divisor in the code
  modelled here is the length of an array.
\<close>

fun js_div :: "jsnum \<Rightarrow> jsnum \<Rightarrow> jsnum" where
  "js_div NaN b = NaN"
| "js_div a NaN = NaN"
| "js_div (Fin a) (Fin b) =
     (if b = 0 then (if a = 0 then NaN else if 0 < a then PInf else NInf)
      else Fin (a / b))"
| "js_div (Fin a) b = Fin 0"
| "js_div a (Fin b) =
     (if (0 \<le> b) = (a = PInf) then PInf else NInf)"
| "js_div a b = NaN"

text \<open>The relational operators; every comparison with NaN is false.\<close>

fun js_lt :: "jsnum \<Rightarrow> jsnum \<Rightarrow> bool" where
  "js_lt NaN b = False"
| "js_lt a NaN = False"
| "js_lt (Fin a) (Fin b) = (a < b)"
| "js_lt PInf b = False"
| "js_lt a PInf = True"
| "js_lt NInf b = (b \<noteq> NInf)"
| "js_lt a NInf = False"

definition js_gt :: "jsnum \<Rightarrow> jsnum \<Rightarrow> bool" where
  "js_gt a b = js_lt b a"

fun js_le :: "jsnum \<Rightarrow> jsnum \<Rightarrow> bool" where
  "js_le NaN b = False"
| "js_le a NaN = False"
| "js_le a b = (\<not> js_lt b a)"

definition js_ge :: "jsnum \<Rightarrow> jsnum \<Rightarrow> bool" where
  "js_ge a b = js_le b a"

text \<open>\<open>Math.min\<close> and \<open>Math.max\<close> of two arguments: NaN if either is NaN.\<close>

fun js_min :: "jsnum \<Rightarrow> jsnum \<Rightarrow> jsnum" where
  "js_min NaN b = NaN"
| "js_min a NaN = NaN"
| "js_min a b = (if js_lt b a then b else a)"

fun js_max :: "jsnum \<Rightarrow> jsnum \<Rightarrow> jsnum" where
  "js_max NaN b = NaN"
| "js_max a NaN = NaN"
| "js_max a b = (if js_lt a b then b else a)"

text \<open>\<open>Math.min(...xs)\<close> and \<open>Math.max(...xs)\<close>: the infinities for no argument.\<close>

definition Math_min :: "jsnum list \<Rightarrow> jsnum" where
  "Math_min xs = foldl js_min PInf xs"

definition Math_max :: "jsnum list \<Rightarrow> jsnum" where
  "Math_max xs = foldl js_max NInf xs"

section \<open>Double precision\<close>

text \<open>
  Rounding to the nearest binary64 value, ties to the even significand. For a positive
  \<open>a\<close>, \<open>expo a\<close> is the exponent \<open>e\<close> with \<open>2^e \<le> a < 2^(e+1)\<close>. The spacing of
  the doubles around \<open>a\<close> is \<open>2^(e - 52)\<close>, and \<open>2^(-1074)\<close> below the smallest normal
  value \<open>2^(-1022)\<close>. A result of \<open>2^1024\<close> or more is an infinity, a result that
  rounds to no spacing at all is zero. The sign of a zero is not kept: no comparison of
  the program tells the two zeros apart.
\<close>

definition pow2 :: "int \<Rightarrow> real" where
  "pow2 e = (if 0 \<le> e then 2 ^ nat e else 1 / 2 ^ nat (- e))"

definition expo :: "real \<Rightarrow> int" where
  "expo a = (if 1 \<le> a then bitlen \<lfloor>a\<rfloor> - 1 else - bitlen (\<lceil>1 / a\<rceil> - 1))"

definition round_even :: "real \<Rightarrow> int" where
  "round_even x =
     (let f = \<lfloor>x\<rfloor>; d = x - of_int f in
      if d < 1 / 2 then f else if 1 / 2 < d then f + 1 else if even f then f else f + 1)"

definition round_double :: "real \<Rightarrow> jsnum" where
  "round_double x =
     (if x = 0 then Fin 0
      else
        (let a = \<bar>x\<bar>; e = expo a in
         if 1023 < e then (if 0 < x then PInf else NInf)
         else
           (let q = max e (- 1022) - 52;
                m = round_even (a / pow2 q)
            in if e = 1023 \<and> 9007199254740992 \<le> m then (if 0 < x then PInf else NInf)
               else Fin (if 0 < x then of_int m * pow2 q else - (of_int m * pow2 q)))))"

text \<open>An operation of the language is the exact operation followed by the rounding.\<close>

fun round_num :: "jsnum \<Rightarrow> jsnum" where
  "round_num (Fin x) = round_double x"
| "round_num v = v"

definition d_add :: "jsnum \<Rightarrow> jsnum \<Rightarrow> jsnum" where
  "d_add a b = round_num (js_add a b)"

definition d_sub :: "jsnum \<Rightarrow> jsnum \<Rightarrow> jsnum" where
  "d_sub a b = round_num (js_sub a b)"

definition d_mul :: "jsnum \<Rightarrow> jsnum \<Rightarrow> jsnum" where
  "d_mul a b = round_num (js_mul a b)"

definition d_div :: "jsnum \<Rightarrow> jsnum \<Rightarrow> jsnum" where
  "d_div a b = round_num (js_div a b)"

section \<open>Arrays\<close>

text \<open>
  \<open>Array.prototype.slice(start, end)\<close>: a negative index counts from the end, both are
  clamped to the array, and an empty range gives the empty array. \<open>None\<close> is an omitted
  \<open>end\<close>.
\<close>

definition js_slice :: "int \<Rightarrow> int option \<Rightarrow> 'a list \<Rightarrow> 'a list" where
  "js_slice start end xs =
     (let len = int (length xs);
          k = (if start < 0 then max (len + start) 0 else min start len);
          e = (case end of None \<Rightarrow> len | Some e \<Rightarrow> e);
          fin = (if e < 0 then max (len + e) 0 else min e len)
      in take (nat (fin - k)) (drop (nat k) xs))"

text \<open>
  \<open>Array.prototype.sort(cmp)\<close>: \<open>a\<close> goes after \<open>b\<close> when \<open>cmp(a, b) > 0\<close>; a
  result that is zero, negative or NaN leaves \<open>a\<close> first. The sort is stable, so for a
  consistent comparator its result is the one an insertion sort gives.
\<close>

fun js_insort :: "('a \<Rightarrow> 'a \<Rightarrow> jsnum) \<Rightarrow> 'a \<Rightarrow> 'a list \<Rightarrow> 'a list" where
  "js_insort cmp x [] = [x]"
| "js_insort cmp x (y # ys) =
     (if js_gt (cmp x y) (Fin 0) then y # js_insort cmp x ys else x # y # ys)"

definition js_sort :: "('a \<Rightarrow> 'a \<Rightarrow> jsnum) \<Rightarrow> 'a list \<Rightarrow> 'a list" where
  "js_sort cmp xs = foldr (js_insort cmp) xs []"

section \<open>Solves\<close>

text \<open>
  A solve as \<open>stopTimer\<close> and \<open>addTypedTime\<close> build it. \<open>time\<close> is the measured
  duration in milliseconds, a finite number on both paths (but for a typed entry whose
  minutes overflow, where the parser can yield NaN; no such solve is modelled).
  \<open>penalty\<close> is \<open>null\<close> (\<open>None\<close>) or a string; \<open>splits\<close> is \<open>null\<close> or the three
  phase durations; \<open>metrics\<close> is an object, empty when nothing was recorded.
\<close>

record splits =
  cross :: jsnum
  f2l :: jsnum
  ll :: jsnum

datatype metric = MNull | MNum jsnum | MBool bool

record solve =
  solve_id :: string
  time :: real
  scramble :: string
  timestamp :: nat
  splits :: "splits option"
  metrics :: "string \<rightharpoonup> metric"
  penalty :: "string option"
  typed :: bool

section \<open>Statistics\<close>

definition getEffectiveTime :: "solve \<Rightarrow> jsnum" where
  "getEffectiveTime s =
     (if penalty s = Some ''DNF'' then PInf
      else if penalty s = Some ''+2'' then js_add (Fin (time s)) (Fin 2000)
      else Fin (time s))"

text \<open>
  The pieces of \<open>calculateAverage\<close>, named as its local constants are: \<open>recent\<close>,
  \<open>dnfCount\<close>, \<open>times\<close>, \<open>sorted\<close> and \<open>trimmed\<close>.
\<close>

definition recent :: "solve list \<Rightarrow> nat \<Rightarrow> solve list" where
  "recent solves n = js_slice (- int n) None solves"

definition dnfCount :: "solve list \<Rightarrow> nat \<Rightarrow> nat" where
  "dnfCount solves n = length (filter (\<lambda>s. penalty s = Some ''DNF'') (recent solves n))"

definition times_list :: "solve list \<Rightarrow> nat \<Rightarrow> jsnum list" where
  "times_list solves n = map getEffectiveTime (recent solves n)"

definition sorted_times :: "solve list \<Rightarrow> nat \<Rightarrow> jsnum list" where
  "sorted_times solves n = js_sort js_sub (times_list solves n)"

definition trimmed :: "solve list \<Rightarrow> nat \<Rightarrow> jsnum list" where
  "trimmed solves n = js_slice 1 (Some (- 1)) (sorted_times solves n)"

text \<open>The result is \<open>None\<close> where the source returns \<open>null\<close>.\<close>

definition calculateAverage :: "solve list \<Rightarrow> nat \<Rightarrow> jsnum option" where
  "calculateAverage solves n =
     (if length solves < n then None
      else if 1 < dnfCount solves n then None
      else if list_ex (\<lambda>t. t = PInf) (trimmed solves n) then None
      else Some (js_div (foldl js_add (Fin 0) (trimmed solves n))
                        (Fin (real (length (trimmed solves n))))))"

text \<open>
  The earlier version of the function in the same file works on the list of raw times and
  has no test for voids.
\<close>

definition calculateAverage_v1 :: "real list \<Rightarrow> nat \<Rightarrow> jsnum option" where
  "calculateAverage_v1 ts n =
     (if length ts < n then None
      else
        (let recent = js_slice (- int n) None ts;
             sorted = js_sort js_sub (map Fin recent);
             trimmed = js_slice 1 (Some (- 1)) sorted
         in Some (js_div (foldl js_add (Fin 0) trimmed) (Fin (real (length trimmed))))))"

section \<open>Strings\<close>

text \<open>
  Strings are lists of 8-bit characters, read as the code points below 256. The language's
  own functions are modelled from the ECMAScript definition on that range.
\<close>

definition charCode :: "char \<Rightarrow> nat" where
  "charCode c = of_char c"

text \<open>White space and line terminators, as \<open>trim\<close> removes them.\<close>

definition isWhiteSpace :: "char \<Rightarrow> bool" where
  "isWhiteSpace c = (charCode c \<in> {9, 10, 11, 12, 13, 32, 160})"

definition trimStart :: "string \<Rightarrow> string" where
  "trimStart s = dropWhile isWhiteSpace s"

definition trim :: "string \<Rightarrow> string" where
  "trim s = rev (dropWhile isWhiteSpace (rev (dropWhile isWhiteSpace s)))"

definition lowerChar :: "char \<Rightarrow> char" where
  "lowerChar c =
     (if (65 \<le> charCode c \<and> charCode c \<le> 90) \<or> (192 \<le> charCode c \<and> charCode c \<le> 222 \<and> charCode c \<noteq> 215)
      then char_of (charCode c + 32) else c)"

definition toLowerCase :: "string \<Rightarrow> string" where
  "toLowerCase s = map lowerChar s"

definition endsWith :: "string \<Rightarrow> string \<Rightarrow> bool" where
  "endsWith s suf = (length suf \<le> length s \<and> drop (length s - length suf) s = suf)"

definition includes_char :: "string \<Rightarrow> char \<Rightarrow> bool" where
  "includes_char s c = (c \<in> set s)"

text \<open>\<open>s.split(c)\<close> for a one-character separator: always at least one piece.\<close>

fun js_split :: "char \<Rightarrow> string \<Rightarrow> string list" where
  "js_split c [] = [[]]"
| "js_split c (x # xs) =
     (if x = c then [] # js_split c xs
      else (case js_split c xs of p # ps \<Rightarrow> (x # p) # ps | [] \<Rightarrow> [[x]]))"

text \<open>
  \<open>s.replace(/\+2?$/, '')\<close>. The pattern is anchored at the end of the string, so a
  match is the last two characters when they are \<open>+2\<close> and the last character when it
  is \<open>+\<close>; a string that ends otherwise is returned as it is.
\<close>

definition replace_plus2 :: "string \<Rightarrow> string" where
  "replace_plus2 s =
     (if endsWith s ''+2'' then take (length s - 2) s
      else if endsWith s ''+'' then take (length s - 1) s
      else s)"

subsection \<open>\<open>parseInt\<close> and \<open>parseFloat\<close>\<close>

definition isDigit :: "char \<Rightarrow> bool" where
  "isDigit c = (48 \<le> charCode c \<and> charCode c \<le> 57)"

definition digitVal :: "char \<Rightarrow> nat" where
  "digitVal c = charCode c - 48"

definition isHexDigit :: "char \<Rightarrow> bool" where
  "isHexDigit c =
     (isDigit c \<or> (65 \<le> charCode c \<and> charCode c \<le> 70) \<or> (97 \<le> charCode c \<and> charCode c \<le> 102))"

definition hexVal :: "char \<Rightarrow> nat" where
  "hexVal c =
     (if isDigit c then digitVal c
      else if charCode c \<le> 70 then charCode c - 55 else charCode c - 87)"

definition digitsVal :: "string \<Rightarrow> nat" where
  "digitsVal ds = foldl (\<lambda>acc c. 10 * acc + digitVal c) 0 ds"

definition hexDigitsVal :: "string \<Rightarrow> nat" where
  "hexDigitsVal ds = foldl (\<lambda>acc c. 16 * acc + hexVal c) 0 ds"

text \<open>A leading sign: its value and the rest of the string.\<close>

fun takeSign :: "string \<Rightarrow> real \<times> string" where
  "takeSign [] = (1, [])"
| "takeSign (c # cs) =
     (if c = CHR ''-'' then (- 1, cs) else if c = CHR ''+'' then (1, cs) else (1, c # cs))"

text \<open>
  \<open>parseInt(s)\<close> with no radix: leading white space is skipped, a sign is read, a prefix
  \<open>0x\<close> or \<open>0X\<close> selects base 16, and the longest run of digits of the base is the
  value, rounded to a double; NaN when that run is empty. What follows the digits is
  ignored.
\<close>

definition parseInt :: "string \<Rightarrow> jsnum" where
  "parseInt s =
     (let (sg, r) = takeSign (trimStart s) in
      if take 2 r = ''0x'' \<or> take 2 r = ''0X'' then
        (let ds = takeWhile isHexDigit (drop 2 r) in
         if ds = [] then NaN else round_double (sg * real (hexDigitsVal ds)))
      else
        (let ds = takeWhile isDigit r in
         if ds = [] then NaN else round_double (sg * real (digitsVal ds))))"

text \<open>
  The exponent part of a decimal literal, read from the text after the mantissa: \<open>e\<close>
  or \<open>E\<close>, an optional sign and at least one digit. Without a digit there is no
  exponent part, and the exponent is 0.
\<close>

definition exponentPart :: "string \<Rightarrow> int" where
  "exponentPart r =
     (case r of
        [] \<Rightarrow> 0
      | c # cs \<Rightarrow>
          if c = CHR ''e'' \<or> c = CHR ''E'' then
            (let (sg, r') = takeSign cs; ds = takeWhile isDigit r' in
             if ds = [] then 0 else (if sg < 0 then - int (digitsVal ds) else int (digitsVal ds)))
          else 0)"

definition pow10 :: "int \<Rightarrow> real" where
  "pow10 e = (if 0 \<le> e then 10 ^ nat e else 1 / 10 ^ nat (- e))"

text \<open>
  \<open>parseFloat(s)\<close>: leading white space is skipped and the longest prefix that is a
  decimal literal is read: a sign, then \<open>Infinity\<close>, or digits with an optional
  fraction and exponent, or a fraction that starts with the point. The result is the
  double nearest to the number the literal denotes, and NaN when no prefix is a literal.
  What follows the literal is ignored. (The language lets an implementation cut a
  literal after its 20th significant digit, here and in \<open>parseInt\<close>; the model rounds
  the full literal, as the engines in use do.)
\<close>

definition parseFloat :: "string \<Rightarrow> jsnum" where
  "parseFloat s =
     (let (sg, r) = takeSign (trimStart s) in
      if take 8 r = ''Infinity'' then (if sg < 0 then NInf else PInf)
      else
        (let ip = takeWhile isDigit r;
             r1 = dropWhile isDigit r;
             hasPoint = (case r1 of [] \<Rightarrow> False | c # _ \<Rightarrow> c = CHR ''.'');
             fp = (if hasPoint then takeWhile isDigit (tl r1) else []);
             r2 = (if hasPoint then dropWhile isDigit (tl r1) else r1)
         in if ip = [] \<and> fp = [] then NaN
            else round_double
                   (sg * (real (digitsVal ip) + real (digitsVal fp) / 10 ^ length fp)
                    * pow10 (exponentPart r2))))"

definition isNaN :: "jsnum \<Rightarrow> bool" where
  "isNaN x = (x = NaN)"

section \<open>Typed time entry\<close>

record parsed =
  parsed_time :: jsnum
  parsed_penalty :: "string option"

text \<open>
  The numeric body of a typed time, in milliseconds; \<open>None\<close> where the source returns
  \<open>null\<close> because a part is not a number. A string with a colon splits into at least
  two pieces; were the second missing, \<open>parseFloat(undefined)\<close> would be NaN, which
  is the last case.
\<close>

definition timeMs :: "string \<Rightarrow> jsnum option" where
  "timeMs input =
     (if includes_char input CHR '':'' then
        (case js_split CHR '':'' input of
           minutes # rest # _ \<Rightarrow>
             (let seconds = parseFloat rest
              in if isNaN (parseInt minutes) \<or> isNaN seconds then None
                 else Some (d_mul (d_add (d_mul (parseInt minutes) (Fin 60)) seconds)
                                  (Fin 1000)))
         | _ \<Rightarrow> None)
      else
        (let seconds = parseFloat input
         in if isNaN seconds then None else Some (d_mul seconds (Fin 1000))))"

text \<open>
  The test for the \<open>+2\<close> suffix and the input after the suffix is removed, both on the
  trimmed input.
\<close>

definition has_suffix :: "string \<Rightarrow> bool" where
  "has_suffix input = (endsWith input ''+'' \<or> endsWith input ''+2'')"

definition numeric_body :: "string \<Rightarrow> string" where
  "numeric_body input = (if has_suffix input then trim (replace_plus2 input) else input)"

definition parseTimeInput :: "string \<Rightarrow> parsed option" where
  "parseTimeInput input0 =
     (let input = trim input0 in
      if toLowerCase input = ''dnf'' then Some \<lparr>parsed_time = Fin 0, parsed_penalty = Some ''DNF''\<rparr>
      else
        (let penalty = (if has_suffix input then Some ''+2'' else None);
             input = numeric_body input
         in case timeMs input of
              None \<Rightarrow> None
            | Some t \<Rightarrow>
                if js_le t (Fin 0) \<or> js_gt t (Fin 3600000) then None
                else Some \<lparr>parsed_time = t, parsed_penalty = penalty\<rparr>))"

section \<open>Application state\<close>

record session =
  session_id :: string
  session_type :: string
  name :: string
  solves :: "solve list"
  createdAt :: nat

datatype timer_state = Idle | Ready | Running | Inspection

text \<open>
  A settings object maps a key to a boolean or, for the theme, a string. The spread
  \<open>{ ...a, ...b }\<close> is \<open>a ++ b\<close>.
\<close>

datatype setting = SBool bool | SStr string

fun truthy :: "setting option \<Rightarrow> bool" where
  "truthy None = False"
| "truthy (Some (SBool b)) = b"
| "truthy (Some (SStr s)) = (s \<noteq> [])"

text \<open>The fields of \<open>State\<close> that the functions below read or write.\<close>

record state =
  sessions :: "session list"
  currentSessionId :: "string option"
  timerState :: timer_state
  timerValue :: real
  intervalId :: "nat option"
  currentScramble :: string
  settings :: "string \<rightharpoonup> setting"
  currentSolve :: "solve option"
  meshSplits :: "jsnum \<times> jsnum"

text \<open>The \<open>State\<close> literal of the source.\<close>

definition State :: state where
  "State =
     \<lparr>sessions = [], currentSessionId = None, timerState = Idle, timerValue = 0,
      intervalId = None, currentScramble = [],
      settings = [''meshBar'' \<mapsto> SBool True, ''stackmat'' \<mapsto> SBool False,
                  ''hideWhileRunning'' \<mapsto> SBool False, ''voiceAlerts'' \<mapsto> SBool False,
                  ''showHistory'' \<mapsto> SBool True, ''confirmDelete'' \<mapsto> SBool True,
                  ''theme'' \<mapsto> SStr ''dark'', ''typingMode'' \<mapsto> SBool False],
      currentSolve = None, meshSplits = (Fin 0.2, Fin 0.65)\<rparr>"

definition getCurrentSession :: "state \<Rightarrow> session option" where
  "getCurrentSession st = find (\<lambda>s. Some (session_id s) = currentSessionId st) (sessions st)"

text \<open>
  \<open>getCurrentSession\<close> returns a reference, and \<open>push\<close> changes the session it refers
  to: the first one of the list with the current id.
\<close>

fun push_solve :: "string option \<Rightarrow> solve \<Rightarrow> session list \<Rightarrow> session list" where
  "push_solve cid v [] = []"
| "push_solve cid v (s # ss) =
     (if Some (session_id s) = cid then s\<lparr>solves := solves s @ [v]\<rparr> # ss
      else s # push_solve cid v ss)"

section \<open>Completing a solve\<close>

text \<open>
  \<open>TypeError\<close> is the exception of a property access on \<open>null\<close> or \<open>undefined\<close>.
  \<open>NullSolve\<close> marks the one place where the source would append \<open>null\<close> to a
  session (\<open>completeSolve\<close> with no pending solve): a \<open>null\<close> entry is outside the
  type of solves, so the model stops there.
\<close>

datatype error = TypeError | NullSolve

text \<open>
  \<open>generateScramble\<close> draws the next scramble at random; the drawn string is the
  argument \<open>scr\<close>. Writes to the page and to local storage are not part of the state.
\<close>

definition completeSolve :: "string \<Rightarrow> state \<Rightarrow> error + state" where
  "completeSolve scr st =
     (case getCurrentSession st of
        None \<Rightarrow> Inl TypeError
      | Some session \<Rightarrow>
          (case currentSolve st of
             None \<Rightarrow> Inl NullSolve
           | Some cs \<Rightarrow>
               Inr (st\<lparr>sessions := push_solve (currentSessionId st) cs (sessions st),
                       currentSolve := None,
                       currentScramble := scr\<rparr>)))"

text \<open>
  \<open>stopTimer\<close>: \<open>idstr\<close> and \<open>ts\<close> are the two readings of \<open>Date.now()\<close>. With the
  Mesh bar on, the solve stays pending in \<open>currentSolve\<close>: \<open>showMeshBar\<close> only draws
  the estimated phase times and opens the metrics dialog a moment later.
\<close>

definition timed_solve :: "string \<Rightarrow> nat \<Rightarrow> state \<Rightarrow> solve" where
  "timed_solve idstr ts st =
     \<lparr>solve_id = idstr, time = timerValue st, scramble = currentScramble st,
      timestamp = ts, splits = None, metrics = Map.empty, penalty = None, typed = False\<rparr>"

definition stopTimer :: "string \<Rightarrow> nat \<Rightarrow> string \<Rightarrow> state \<Rightarrow> error + state" where
  "stopTimer idstr ts scr st =
     (let st1 = st\<lparr>intervalId := None, timerState := Idle\<rparr>;
          solve = timed_solve idstr ts st1;
          st2 = st1\<lparr>currentSolve := Some solve\<rparr>
      in if truthy (settings st2 ''meshBar'') then Inr st2 else completeSolve scr st2)"

text \<open>The fields of the metrics dialog: three text inputs and two check boxes.\<close>

record mesh_form =
  crossMoves :: string
  crossRotations :: string
  f2lRotations :: string
  f2lPause :: bool
  llRecognition :: bool

definition numberOrNull :: "string \<Rightarrow> metric" where
  "numberOrNull v = (if v \<noteq> [] then MNum (parseInt v) else MNull)"

text \<open>The metrics object and the splits object that \<open>saveMeshMetrics\<close> assigns.\<close>

definition form_metrics :: "mesh_form \<Rightarrow> (string \<rightharpoonup> metric)" where
  "form_metrics form =
     [''crossMoves'' \<mapsto> numberOrNull (crossMoves form),
      ''crossRotations'' \<mapsto> numberOrNull (crossRotations form),
      ''f2lRotations'' \<mapsto> numberOrNull (f2lRotations form),
      ''f2lPause'' \<mapsto> MBool (f2lPause form),
      ''llRecognition'' \<mapsto> MBool (llRecognition form)]"

definition phaseSplits :: "real \<Rightarrow> jsnum \<times> jsnum \<Rightarrow> splits" where
  "phaseSplits t rr =
     \<lparr>cross = js_mul (Fin t) (fst rr),
      f2l = js_mul (Fin t) (js_sub (snd rr) (fst rr)),
      ll = js_mul (Fin t) (js_sub (Fin 1) (snd rr))\<rparr>"

definition saveMeshMetrics :: "mesh_form \<Rightarrow> string \<Rightarrow> state \<Rightarrow> error + state" where
  "saveMeshMetrics form scr st =
     (case currentSolve st of
        None \<Rightarrow> Inl TypeError
      | Some cs \<Rightarrow>
          completeSolve scr
            (st\<lparr>currentSolve :=
                   Some (cs\<lparr>metrics := form_metrics form,
                             splits := Some (phaseSplits (time cs) (meshSplits st))\<rparr>)\<rparr>))"

definition skipMeshMetrics :: "string \<Rightarrow> state \<Rightarrow> error + state" where
  "skipMeshMetrics scr st = completeSolve scr st"

text \<open>
  The two ways through the completion of a timed solve with the Mesh bar on:
  \<open>stopTimer\<close>, then the skip button or the save button of the dialog. \<open>current_solves\<close>
  reads the solves of the current session off the outcome.
\<close>

definition skip_path :: "string \<Rightarrow> nat \<Rightarrow> string \<Rightarrow> state \<Rightarrow> error + state" where
  "skip_path idstr ts scr st =
     (case stopTimer idstr ts scr st of Inl e \<Rightarrow> Inl e | Inr st1 \<Rightarrow> skipMeshMetrics scr st1)"

definition save_path :: "mesh_form \<Rightarrow> string \<Rightarrow> nat \<Rightarrow> string \<Rightarrow> state \<Rightarrow> error + state" where
  "save_path form idstr ts scr st =
     (case stopTimer idstr ts scr st of
        Inl e \<Rightarrow> Inl e
      | Inr st1 \<Rightarrow> saveMeshMetrics form scr st1)"

definition current_solves :: "error + state \<Rightarrow> solve list option" where
  "current_solves r =
     (case r of
        Inl e \<Rightarrow> None
      | Inr st \<Rightarrow> map_option solves (getCurrentSession st))"

section \<open>Adjusting the split ratios\<close>

definition updateMeshSplit :: "jsnum \<Rightarrow> jsnum \<Rightarrow> state \<Rightarrow> state" where
  "updateMeshSplit index relativeX st =
     (let r1 = fst (meshSplits st); r2 = snd (meshSplits st) in
      if index = Fin 0 then
        (let r1' = js_max (Fin 0.1) (js_min (Fin 0.4) relativeX) in
         if js_ge r1' (js_sub r2 (Fin 0.1))
         then st\<lparr>meshSplits := (js_sub r2 (Fin 0.1), r2)\<rparr>
         else st\<lparr>meshSplits := (r1', r2)\<rparr>)
      else if index = Fin 1 then
        (let r2' = js_max (Fin 0.5) (js_min (Fin 0.9) relativeX) in
         if js_le r2' (js_add r1 (Fin 0.1))
         then st\<lparr>meshSplits := (r1, js_add r1 (Fin 0.1))\<rparr>
         else st\<lparr>meshSplits := (r1, r2')\<rparr>)
      else st)"

text \<open>A sequence of adjustments, each an index and a proposed value.\<close>

definition updateMeshSplits :: "(jsnum \<times> jsnum) list \<Rightarrow> state \<Rightarrow> state" where
  "updateMeshSplits ops st = foldl (\<lambda>s (i, x). updateMeshSplit i x s) st ops"

section \<open>The statistics panel\<close>

text \<open>
  What \<open>updateStats\<close> shows. A field is \<open>None\<close> when the text written is the dash
  (directly, or because \<open>formatTime\<close> is given \<open>null\<close>), and otherwise the number
  handed to \<open>formatTime\<close>; the formatting itself is presentation.
\<close>

record stats =
  ao5 :: "jsnum option"
  ao12 :: "jsnum option"
  ao50 :: "jsnum option"
  ao100 :: "jsnum option"
  best :: "jsnum option"
  worst :: "jsnum option"
  mean :: "jsnum option"
  solve_count :: nat

definition no_stats :: stats where
  "no_stats =
     \<lparr>ao5 = None, ao12 = None, ao50 = None, ao100 = None,
      best = None, worst = None, mean = None, solve_count = 0\<rparr>"

text \<open>
  \<open>getEffectiveTime\<close> once more, with the sum of the penalty rounded to the nearest double
  as the addition of the language rounds it. It differs from the exact \<open>getEffectiveTime\<close>
  above only on a solve with the penalty \<open>+2\<close> whose time plus 2000 is not a double
  (a time of whole milliseconds below \<open>2 ^ 52\<close> never is such a time). The panel
  compares best, mean and worst to the last bit, so it is modelled with this one.
\<close>

definition getEffectiveTime_double :: "solve \<Rightarrow> jsnum" where
  "getEffectiveTime_double s =
     (if penalty s = Some ''DNF'' then PInf
      else if penalty s = Some ''+2'' then d_add (Fin (time s)) (Fin 2000)
      else Fin (time s))"

definition validTimes :: "solve list \<Rightarrow> jsnum list" where
  "validTimes ss = map getEffectiveTime_double (filter (\<lambda>s. penalty s \<noteq> Some ''DNF'') ss)"

definition updateStats :: "state \<Rightarrow> stats" where
  "updateStats st =
     (case getCurrentSession st of
        None \<Rightarrow> no_stats
      | Some session \<Rightarrow>
          if length (solves session) = 0 then no_stats
          else
            (let ts = validTimes (solves session) in
             \<lparr>ao5 = calculateAverage (solves session) 5,
              ao12 = calculateAverage (solves session) 12,
              ao50 = calculateAverage (solves session) 50,
              ao100 = calculateAverage (solves session) 100,
              best = (if 0 < length ts then Some (Math_min ts) else None),
              worst = (if 0 < length ts then Some (Math_max ts) else None),
              mean = (if 0 < length ts
                      then Some (d_div (foldl d_add (Fin 0) ts) (Fin (real (length ts))))
                      else None),
              solve_count = length (solves session)\<rparr>))"

section \<open>Import\<close>

text \<open>
  The parsed import file. A key is \<open>None\<close> when the document does not have it (or has
  a value that fails the test of the source: a falsy one, or for \<open>sessions\<close> one that
  is not an array). Documents whose values have another shape than the export writes are
  outside this model.
\<close>

record import_doc =
  doc_sessions :: "session list option"
  doc_settings :: "(string \<rightharpoonup> setting) option"
  doc_meshSplits :: "(jsnum \<times> jsnum) option"

text \<open>
  The handler of \<open>importData\<close> once the file is read: \<open>None\<close> is a text that
  \<open>JSON.parse\<close> rejects, where the exception is caught before anything is assigned.
\<close>

definition importData :: "import_doc option \<Rightarrow> state \<Rightarrow> state" where
  "importData parsed_file st =
     (case parsed_file of
        None \<Rightarrow> st
      | Some data \<Rightarrow>
          (let st1 = (case doc_sessions data of
                        Some ss \<Rightarrow> st\<lparr>sessions := ss\<rparr> | None \<Rightarrow> st);
               st2 = (case doc_settings data of
                        Some p \<Rightarrow> st1\<lparr>settings := settings st1 ++ p\<rparr> | None \<Rightarrow> st1);
               st3 = (case doc_meshSplits data of
                        Some m \<Rightarrow> st2\<lparr>meshSplits := m\<rparr> | None \<Rightarrow> st2)
           in case sessions st3 of
                [] \<Rightarrow> st3
              | s # _ \<Rightarrow> st3\<lparr>currentSessionId := Some (session_id s)\<rparr>))"

section \<open>The rolling average in the words of the specification\<close>




section \<open>Example data\<close>

text \<open>A solve with a given duration and penalty, and nothing else recorded.\<close>

definition example_solve :: "real \<Rightarrow> string option \<Rightarrow> solve" where
  "example_solve t p =
     \<lparr>solve_id = [], time = t, scramble = [], timestamp = 0, splits = None,
      metrics = Map.empty, penalty = p, typed = False\<rparr>"

definition five_solves :: "solve list" where
  "five_solves = map (\<lambda>t. example_solve t None) [10000, 11000, 12000, 13000, 14000]"

definition five_solves_one_void :: "solve list" where
  "five_solves_one_void =
     [example_solve 10000 None, example_solve 11000 None, example_solve 12000 (Some ''DNF''),
      example_solve 13000 None, example_solve 14000 None]"

section \<open>The solves that count\<close>

text \<open>
  The solves of the current session that are not void, in their order, and their
  effective times as the panel computes them; both are empty when there is no
  current session.
\<close>

definition nonvoid_solves :: "state \<Rightarrow> solve list" where
  "nonvoid_solves st =
     (case getCurrentSession st of
        None \<Rightarrow> []
      | Some session \<Rightarrow> filter (\<lambda>s. penalty s \<noteq> Some ''DNF'') (solves session))"

definition effective_times :: "state \<Rightarrow> jsnum list" where
  "effective_times st = map getEffectiveTime_double (nonvoid_solves st)"

text \<open>A state with one session of three solves, the timer running.\<close>

definition example_session :: session where
  "example_session =
     \<lparr>session_id = ''s1'', session_type = ''normal'', name = ''Normal 1'',
      solves = [example_solve 10000 None, example_solve 12000 (Some ''+2''),
                example_solve 9000 (Some ''DNF'')],
      createdAt = 0\<rparr>"

definition example_state :: state where
  "example_state =
     State\<lparr>sessions := [example_session], currentSessionId := Some ''s1'',
           timerState := Running, timerValue := 10000\<rparr>"

text \<open>A filled metrics dialog, and two import documents with keys missing.\<close>

definition example_form :: mesh_form where
  "example_form =
     \<lparr>crossMoves = ''7'', crossRotations = [], f2lRotations = ''2'',
      f2lPause = True, llRecognition = False\<rparr>"

definition settings_only_doc :: import_doc where
  "settings_only_doc =
     \<lparr>doc_sessions = None, doc_settings = Some [''theme'' \<mapsto> SStr ''light''],
      doc_meshSplits = None\<rparr>"

definition one_session_doc :: import_doc where
  "one_session_doc =
     \<lparr>doc_sessions =
        Some [\<lparr>session_id = ''s9'', session_type = ''blind'', name = ''BLD 1'', solves = [],
               createdAt = 5\<rparr>],
      doc_settings = None, doc_meshSplits = None\<rparr>"

section \<open>The forms of a typed time\<close>

text \<open>
  The two forms of a numeric body, \<open>SS[.fraction]\<close> and \<open>MM:SS[.fraction]\<close>, built from
  strings of decimal digits, with the number of seconds they denote and the duration in
  milliseconds that double arithmetic makes of it; the penalty that a suffix stands for;
  and the range test on a duration: a finite one is accepted when it is above 0 and at
  most 3600000, an infinite one is rejected, and NaN, which is neither at most 0 nor
  above 3600000, passes. \<open>numeric_start\<close> and \<open>integer_start\<close> say when a text begins
  with a number as \<open>parseFloat\<close> and \<open>parseInt\<close> read one: after white space and an
  optional sign, a digit, a point and a digit, or \<open>Infinity\<close>; for an integer, a digit,
  or a hexadecimal digit after the prefix \<open>0x\<close>.
\<close>

definition all_digits :: "string \<Rightarrow> bool" where
  "all_digits ds = list_all isDigit ds"

definition seconds_form :: "string \<Rightarrow> string \<Rightarrow> string" where
  "seconds_form s f = (if f = [] then s else s @ ''.'' @ f)"

definition minutes_form :: "string \<Rightarrow> string \<Rightarrow> string \<Rightarrow> string" where
  "minutes_form m s f = m @ '':'' @ seconds_form s f"

definition seconds_value :: "string \<Rightarrow> string \<Rightarrow> real" where
  "seconds_value s f = real (digitsVal s) + real (digitsVal f) / 10 ^ length f"

definition seconds_ms :: "string \<Rightarrow> string \<Rightarrow> jsnum" where
  "seconds_ms s f = d_mul (round_double (seconds_value s f)) (Fin 1000)"

definition minutes_ms :: "string \<Rightarrow> string \<Rightarrow> string \<Rightarrow> jsnum" where
  "minutes_ms m s f =
     d_mul (d_add (d_mul (round_double (real (digitsVal m))) (Fin 60))
                  (round_double (seconds_value s f)))
           (Fin 1000)"

definition suffix_penalty :: "string \<Rightarrow> string option" where
  "suffix_penalty sfx = (if sfx = [] then None else Some ''+2'')"

fun accept :: "jsnum \<Rightarrow> string option \<Rightarrow> parsed option" where
  "accept (Fin v) p =
     (if 0 < v \<and> v \<le> 3600000 then Some \<lparr>parsed_time = Fin v, parsed_penalty = p\<rparr> else None)"
| "accept PInf p = None"
| "accept NInf p = None"
| "accept NaN p = Some \<lparr>parsed_time = NaN, parsed_penalty = p\<rparr>"

definition numeric_start :: "string \<Rightarrow> bool" where
  "numeric_start x =
     (let r = snd (takeSign (trimStart x)) in
      take 8 r = ''Infinity'' \<or>
      (case r of
         [] \<Rightarrow> False
       | c # cs \<Rightarrow>
           isDigit c \<or>
           (c = CHR ''.'' \<and> (case cs of [] \<Rightarrow> False | d # _ \<Rightarrow> isDigit d))))"

definition integer_start :: "string \<Rightarrow> bool" where
  "integer_start x =
     (let r = snd (takeSign (trimStart x)) in
      if take 2 r = ''0x'' \<or> take 2 r = ''0X''
      then (case drop 2 r of [] \<Rightarrow> False | c # _ \<Rightarrow> isHexDigit c)
      else (case r of [] \<Rightarrow> False | c # _ \<Rightarrow> isDigit c))"

section \<open>The mean in double arithmetic\<close>

text \<open>
  The mean of \<open>updateStats\<close> on finite times:
  \<open>times.reduce((a, b) => a + b, 0) / times.length\<close>, every sum and the quotient rounded.
\<close>

definition double_mean :: "real list \<Rightarrow> jsnum" where
  "double_mean rs = d_div (foldl d_add (Fin 0) (map Fin rs)) (Fin (real (length rs)))"

text \<open>
  The unit roundoff of a double, and the lists of times on which no sum overflows or
  falls into the subnormal range: at most \<open>2 ^ 52\<close> times, each 0 or between
  \<open>1 / 2 ^ 900\<close> and \<open>2 ^ 900\<close>.
\<close>

definition unit_roundoff :: real where
  "unit_roundoff = 1 / 2 ^ 53"

definition ordinary_times :: "real list \<Rightarrow> bool" where
  "ordinary_times rs =
     (real (length rs) \<le> 2 ^ 52 \<and> list_all (\<lambda>t. t = 0 \<or> (1 / 2 ^ 900 \<le> t \<and> t \<le> 2 ^ 900)) rs)"

text \<open>
  The sessions whose stored times are of that kind: at most \<open>2 ^ 52\<close> solves that are
  not void, the time of each 0 or between \<open>1 / 2 ^ 900\<close> and \<open>2 ^ 899\<close>
  milliseconds.
\<close>

definition ordinary_solves :: "state \<Rightarrow> bool" where
  "ordinary_solves st =
     (real (length (nonvoid_solves st)) \<le> 2 ^ 52 \<and>
      list_all (\<lambda>s. time s = 0 \<or> (1 / 2 ^ 900 \<le> time s \<and> time s \<le> 2 ^ 899))
        (nonvoid_solves st))"

text \<open>
  Two stored times that are doubles: the time that typing \<open>2.01\<close> stores
  (2009.9999999999998 as a decimal), and the double nearest to 5461.35. A session of
  solves with the given times and no penalty.
\<close>

definition typed_201 :: real where
  "typed_201 = 8840073487319039 / 4398046511104"

definition double_546135 :: real where
  "double_546135 = 3002408914177229 / 549755813888"

definition session_of :: "real list \<Rightarrow> state" where
  "session_of ts =
     State\<lparr>sessions := [\<lparr>session_id = ''s1'', session_type = ''normal'', name = ''Normal 1'',
                           solves = map (\<lambda>t. example_solve t None) ts, createdAt = 0\<rparr>],
           currentSessionId := Some ''s1''\<rparr>"

section \<open>The invariant of the split ratios\<close>

text \<open>
  The bounds on the two ratios, and the bounds on the three phase shares \<open>r1\<close>,
  \<open>r2 - r1\<close> and \<open>1 - r2\<close>, written with the comparisons of the language: both are
  false when a ratio is NaN.
\<close>

definition ratios_ok :: "jsnum \<times> jsnum \<Rightarrow> bool" where
  "ratios_ok rr =
     (let r1 = fst rr; r2 = snd rr in
      js_le (Fin 0.1) r1 \<and> js_le r1 (js_sub r2 (Fin 0.1)) \<and>
      js_le (js_add r1 (Fin 0.1)) r2 \<and> js_le r2 (Fin 0.9))"

definition shares_ok :: "jsnum \<times> jsnum \<Rightarrow> bool" where
  "shares_ok rr =
     (let r1 = fst rr; r2 = snd rr in
      js_ge r1 (Fin 0) \<and> js_ge (js_sub r2 r1) (Fin 0.1) \<and> js_ge (js_sub (Fin 1) r2) (Fin 0))"

section \<open>Facts about slices and the sort\<close>

lemma js_slice_last: "0 < n \<Longrightarrow> js_slice (- int n) None xs = drop (length xs - n) xs"
  by (auto simp: js_slice_def Let_def max_def nat_diff_distrib'
           intro: arg_cong[where f="\<lambda>k. drop k xs"])

lemma js_slice_inner: "js_slice 1 (Some (- 1)) xs = butlast (tl xs)"
proof (cases xs)
  case Nil
  then show ?thesis by (simp add: js_slice_def)
next
  case (Cons a list)
  have "nat (int (length list) - 1) = length list - 1" by simp
  then show ?thesis
    using Cons by (simp add: js_slice_def Let_def butlast_conv_take drop_Suc)
qed

lemma length_js_insort: "length (js_insort cmp x ys) = Suc (length ys)"
  by (induction ys) auto

lemma length_js_sort: "length (js_sort cmp xs) = length xs"
  by (induction xs) (simp_all add: js_sort_def length_js_insort)

lemma length_recent: "0 < n \<Longrightarrow> n \<le> length ss \<Longrightarrow> length (recent ss n) = n"
  by (simp add: recent_def js_slice_last)

lemma length_trimmed: "0 < n \<Longrightarrow> n \<le> length ss \<Longrightarrow> length (trimmed ss n) = n - 2"
  by (simp add: trimmed_def js_slice_inner sorted_times_def times_list_def length_js_sort
      length_recent)

section \<open>The effective time\<close>



section \<open>The rolling average\<close>

text \<open>
  Claim C2. The average of 5 over the five solves of 10000, 11000, 12000, 13000 and
  14000 ms with no penalty is 12000. With the solve at index 2 void, it is the mean of
  11000, 13000 and 14000: the void counts as infinity, sorts last and is trimmed away.
  That mean is 38000/3, which is 12666.67 to two decimals.
\<close>

theorem calculateAverage_five_solves:
  "calculateAverage five_solves 5 = Some (Fin 12000) \<and>
   calculateAverage five_solves_one_void 5 = Some (Fin ((11000 + 13000 + 14000) / 3)) \<and>
   sorted_times five_solves_one_void 5 = [Fin 10000, Fin 11000, Fin 13000, Fin 14000, PInf] \<and>
   trimmed five_solves_one_void 5 = [Fin 11000, Fin 13000, Fin 14000] \<and>
   round (100 * ((11000 + 13000 + 14000) / 3 :: real)) = 1266667"
proof -
  have a: "calculateAverage five_solves 5 = Some (Fin 12000)"
    by code_simp
  have b: "calculateAverage five_solves_one_void 5 = Some (Fin ((11000 + 13000 + 14000) / 3))"
    by code_simp
  have c: "sorted_times five_solves_one_void 5
             = [Fin 10000, Fin 11000, Fin 13000, Fin 14000, PInf]"
    by code_simp
  have d: "trimmed five_solves_one_void 5 = [Fin 11000, Fin 13000, Fin 14000]"
    by code_simp
  have e: "round (100 * ((11000 + 13000 + 14000) / 3 :: real)) = 1266667"
    by (simp add: round_def)
  from a b c d e show ?thesis by blast
qed

section \<open>The sort by subtraction is the sort by rank\<close>









section \<open>The rolling average against its specification\<close>




text \<open>
  Claim C10. For \<open>n = 1\<close> or \<open>n = 2\<close>, with at least \<open>n\<close> solves of which the last
  \<open>n\<close> hold at most one void, the result is NaN: the trimmed window is empty, and the sum 0
  is divided by the length 0. The earlier version of the function does the same.
\<close>

theorem calculateAverage_small_window:
  assumes "n = 1 \<or> n = 2" and "n \<le> length ss" and "dnfCount ss n \<le> 1"
  shows "trimmed ss n = [] \<and> calculateAverage ss n = Some NaN \<and>
         calculateAverage_v1 (map time ss) n = Some NaN"
proof -
  have "length (trimmed ss n) = 0"
    using assms length_trimmed[of n ss] by auto
  then have t: "trimmed ss n = []" by simp
  have "0 < n" using assms by auto
  then have "length (js_slice (- int n) None (map time ss)) = n"
    using assms by (simp add: js_slice_last)
  then have "length (js_slice 1 (Some (- 1)) (js_sort js_sub (map Fin (js_slice (- int n) None (map time ss))))) = n - 2"
    by (simp add: js_slice_inner length_js_sort)
  then have "length (js_slice 1 (Some (- 1)) (js_sort js_sub (map Fin (js_slice (- int n) None (map time ss))))) = 0"
    using assms by auto
  then have v: "js_slice 1 (Some (- 1)) (js_sort js_sub (map Fin (js_slice (- int n) None (map time ss)))) = []"
    by simp
  have "calculateAverage ss n = Some NaN"
    using assms t by (auto simp: calculateAverage_def)
  moreover have "calculateAverage_v1 (map time ss) n = Some NaN"
    using assms v by (auto simp: calculateAverage_v1_def Let_def)
  ultimately show ?thesis using t by simp
qed

theorem calculateAverage_small_window_witness:
  "((2::nat) = 1 \<or> (2::nat) = 2) \<and>
   2 \<le> length [example_solve 10000 None, example_solve 12000 (Some ''DNF'')] \<and>
   dnfCount [example_solve 10000 None, example_solve 12000 (Some ''DNF'')] 2 \<le> 1 \<and>
   calculateAverage [example_solve 10000 None, example_solve 12000 (Some ''DNF'')] 2 = Some NaN"
proof -
  have h: "dnfCount [example_solve 10000 None, example_solve 12000 (Some ''DNF'')] 2 \<le> 1"
    by (simp add: dnfCount_def recent_def js_slice_def example_solve_def)
  show ?thesis
    using h calculateAverage_small_window
      [of 2 "[example_solve 10000 None, example_solve 12000 (Some ''DNF'')]"]
    by simp
qed

section \<open>The split ratios\<close>

text \<open>
  Claim C4, as amended. With the ratios at (0.2, 0.65), \<open>updateMeshSplit\<close> with index 0
  and the proposed value 0.65 sets the first ratio to 0.4, the upper bound of its clamp,
  which is below \<open>r2 - 0.1 = 0.55\<close>; the second ratio stays 0.65.
\<close>

theorem updateMeshSplit_example:
  "meshSplits State = (Fin 0.2, Fin 0.65) \<and>
   meshSplits (updateMeshSplit (Fin 0) (Fin 0.65) State) = (Fin 0.4, Fin 0.65) \<and>
   js_le (Fin 0.4) (js_sub (Fin 0.65) (Fin 0.1))"
  by (simp add: updateMeshSplit_def State_def js_ge_def js_sub_def)

text \<open>The first ratio does not become 0.55.\<close>

theorem updateMeshSplit_example_counterexample:
  "fst (meshSplits (updateMeshSplit (Fin 0) (Fin 0.65) State)) \<noteq> Fin 0.55"
  by (simp add: updateMeshSplit_def State_def js_ge_def js_sub_def)

text \<open>
  Claim C6. From the initial ratios (0.2, 0.65), every sequence of calls of
  \<open>updateMeshSplit\<close> is to keep \<open>0.1 \<le> r1 \<le> r2 - 0.1\<close> and \<open>r1 + 0.1 \<le> r2 \<le> 0.9\<close>,
  and with them a share of at least 0.1 for phase 2 and no negative share. The code breaks
  this at the proposed value NaN: it passes through \<open>Math.min\<close> and \<open>Math.max\<close>, fails
  the comparison that follows and is stored as the first ratio, so that neither the bounds
  nor the shares hold.
\<close>

theorem updateMeshSplit_NaN:
  "meshSplits (updateMeshSplits [(Fin 0, NaN)] State) = (NaN, Fin 0.65) \<and>
   \<not> ratios_ok (meshSplits (updateMeshSplits [(Fin 0, NaN)] State)) \<and>
   \<not> shares_ok (meshSplits (updateMeshSplits [(Fin 0, NaN)] State))"
  by (simp add: updateMeshSplits_def updateMeshSplit_def State_def ratios_ok_def shares_ok_def
      js_ge_def js_sub_def)

text \<open>
  The ratios (0.4, 0.5) are reached by the proposed values 0.65 for index 0 and
  \<open>-Infinity\<close> for index 1. In double precision, the difference of the doubles 0.5 and
  0.4 is below the double 0.1.
\<close>

lemma phase_two_share_rounded:
  "meshSplits (updateMeshSplits [(Fin 0, Fin 0.65), (Fin 1, NInf)] State) = (Fin 0.4, Fin 0.5) \<and>
   d_sub (round_double 0.5) (round_double 0.4) = Fin (900719925474099 / 9007199254740992) \<and>
   round_double 0.1 = Fin (3602879701896397 / 36028797018963968) \<and>
   (900719925474099 / 9007199254740992 :: real) < 3602879701896397 / 36028797018963968"
proof -
  have a: "meshSplits (updateMeshSplits [(Fin 0, Fin 0.65), (Fin 1, NInf)] State)
             = (Fin 0.4, Fin 0.5)"
    by (simp add: updateMeshSplits_def updateMeshSplit_def State_def js_ge_def js_sub_def)
  have b: "d_sub (round_double 0.5) (round_double 0.4)
             = Fin (900719925474099 / 9007199254740992)"
    by code_simp
  have c: "round_double 0.1 = Fin (3602879701896397 / 36028797018963968)"
    by code_simp
  have d: "(900719925474099 / 9007199254740992 :: real) < 3602879701896397 / 36028797018963968"
    by simp
  from a b c d show ?thesis by blast
qed

section \<open>Skipping the metrics\<close>

lemma find_push_solve:
  "find (\<lambda>s. Some (session_id s) = cid) ss = Some session \<Longrightarrow>
   find (\<lambda>s. Some (session_id s) = cid) (push_solve cid v ss)
     = Some (session\<lparr>solves := solves session @ [v]\<rparr>)"
  by (induction ss) (auto split: if_splits)

lemma completeSolve_appends:
  assumes "getCurrentSession st = Some session" and "currentSolve st = Some cs"
  shows "current_solves (completeSolve scr st) = Some (solves session @ [cs])"
  using assms find_push_solve[of "currentSessionId st" "sessions st" session cs]
  by (simp add: completeSolve_def current_solves_def getCurrentSession_def)

text \<open>
  Claim C5, as amended. With the Mesh bar on and a current session, a timed solve that
  goes through the skip path is appended to the current session with its measured
  duration, with no splits (\<open>splits\<close> stays \<open>null\<close>) and with empty metrics. The
  splits derived from the duration and the current ratios are stored on the save path
  only, together with the metrics of the dialog.
\<close>

theorem skip_path_stores_no_splits:
  assumes "truthy (settings st ''meshBar'')" and "getCurrentSession st = Some session"
  shows "current_solves (skip_path idstr ts scr st)
           = Some (solves session @ [timed_solve idstr ts st]) \<and>
         time (timed_solve idstr ts st) = timerValue st \<and>
         splits (timed_solve idstr ts st) = None \<and>
         metrics (timed_solve idstr ts st) = Map.empty \<and>
         current_solves (save_path form idstr ts scr st)
           = Some (solves session @
                   [(timed_solve idstr ts st)
                      \<lparr>metrics := form_metrics form,
                       splits := Some (phaseSplits (timerValue st) (meshSplits st))\<rparr>])"
proof -
  let ?p = "st\<lparr>intervalId := None, timerState := Idle,
                 currentSolve := Some (timed_solve idstr ts st)\<rparr>"
  have ts: "timed_solve idstr ts (st\<lparr>intervalId := None, timerState := Idle\<rparr>) = timed_solve idstr ts st"
    by (simp add: timed_solve_def)
  have stop: "stopTimer idstr ts scr st = Inr ?p"
    using assms(1) by (simp add: stopTimer_def Let_def ts)
  have cur: "getCurrentSession ?p = Some session"
    using assms(2) by (simp add: getCurrentSession_def)
  have a: "current_solves (skip_path idstr ts scr st) = Some (solves session @ [timed_solve idstr ts st])"
    using completeSolve_appends[OF cur, of "timed_solve idstr ts st" scr]
    by (simp add: skip_path_def stop skipMeshMetrics_def)
  let ?cs = "(timed_solve idstr ts st)\<lparr>metrics := form_metrics form,
                splits := Some (phaseSplits (timerValue st) (meshSplits st))\<rparr>"
  let ?q = "?p\<lparr>currentSolve := Some ?cs\<rparr>"
  have curq: "getCurrentSession ?q = Some session"
    using assms(2) by (simp add: getCurrentSession_def)
  have tm: "time (timed_solve idstr ts st) = timerValue st"
    by (simp add: timed_solve_def)
  have sv: "saveMeshMetrics form scr ?p = completeSolve scr ?q"
    by (simp add: saveMeshMetrics_def tm)
  have b: "current_solves (save_path form idstr ts scr st) = Some (solves session @ [?cs])"
    using completeSolve_appends[OF curq, of ?cs scr]
    by (simp add: save_path_def stop sv)
  show ?thesis using a b by (simp add: timed_solve_def)
qed

lemma example_current: "getCurrentSession example_state = Some example_session"
  by (simp add: getCurrentSession_def example_state_def example_session_def State_def)

lemma example_meshBar: "truthy (settings example_state ''meshBar'')"
  by (simp add: example_state_def State_def)

theorem skip_path_stores_no_splits_witness:
  "truthy (settings example_state ''meshBar'') \<and>
   getCurrentSession example_state = Some example_session \<and>
   current_solves (skip_path ''2'' 2 ''R U'' example_state)
     = Some (solves example_session @ [timed_solve ''2'' 2 example_state]) \<and>
   splits (timed_solve ''2'' 2 example_state) = None"
  using skip_path_stores_no_splits [OF example_meshBar example_current, of "''2''" 2 "''R U''" example_form]
    example_meshBar example_current
  by simp

text \<open>
  On the example state (a running timer at 10000 ms, ratios 0.2 and 0.65), the solve
  stored by the skip path has no splits, where the save path stores 2000, 4500 and 3500.
\<close>

theorem skip_path_stores_no_splits_counterexample:
  "map_option (map splits) (current_solves (skip_path ''2'' 2 ''R U'' example_state))
     = Some [None, None, None, None] \<and>
   map_option (map splits) (current_solves (save_path example_form ''2'' 2 ''R U'' example_state))
     = Some [None, None, None, Some \<lparr>cross = Fin 2000, f2l = Fin 4500, ll = Fin 3500\<rparr>] \<and>
   phaseSplits (timerValue example_state) (meshSplits example_state)
     = \<lparr>cross = Fin 2000, f2l = Fin 4500, ll = Fin 3500\<rparr>"
  by (simp add: skip_path_def save_path_def stopTimer_def skipMeshMetrics_def saveMeshMetrics_def
      completeSolve_def current_solves_def getCurrentSession_def timed_solve_def phaseSplits_def
      example_state_def example_session_def example_solve_def State_def js_sub_def Let_def)

section \<open>Import\<close>

text \<open>
  Claim C9. Importing a document leaves the sessions, the settings and the split ratios
  as they were for each of these keys that the document does not have; and a document
  with a non-empty sessions array makes its first session the current one.
\<close>

theorem importData_keys:
  "(doc_sessions data = None \<longrightarrow> sessions (importData (Some data) st) = sessions st) \<and>
   (doc_settings data = None \<longrightarrow> settings (importData (Some data) st) = settings st) \<and>
   (doc_meshSplits data = None \<longrightarrow> meshSplits (importData (Some data) st) = meshSplits st) \<and>
   (doc_sessions data = Some (s # ss) \<longrightarrow>
      sessions (importData (Some data) st) = s # ss \<and>
      currentSessionId (importData (Some data) st) = Some (session_id s) \<and>
      getCurrentSession (importData (Some data) st) = Some s)"
  by (auto simp: importData_def Let_def getCurrentSession_def split: option.splits list.splits)

theorem importData_keys_witness:
  "sessions (importData (Some settings_only_doc) example_state) = sessions example_state \<and>
   meshSplits (importData (Some settings_only_doc) example_state) = meshSplits example_state \<and>
   settings (importData (Some one_session_doc) example_state) = settings example_state \<and>
   currentSessionId (importData (Some one_session_doc) example_state) = Some ''s9''"
  using importData_keys [of settings_only_doc example_state]
    importData_keys [of one_session_doc example_state
      "\<lparr>session_id = ''s9'', session_type = ''blind'', name = ''BLD 1'', solves = [], createdAt = 5\<rparr>" "[]"]
  by (simp add: settings_only_doc_def one_session_doc_def)

section \<open>The typed time parser\<close>

lemma round_double_not_NaN: "round_double x \<noteq> NaN"
  by (simp add: round_double_def Let_def)

lemma digit_not_special:
  assumes "isDigit c"
  shows "\<not> isWhiteSpace c" "c \<noteq> CHR ''-''" "c \<noteq> CHR ''+''" "c \<noteq> CHR ''.''" "c \<noteq> CHR '':''"
    "c \<noteq> CHR ''I''" "c \<noteq> CHR ''x''" "c \<noteq> CHR ''X''" "c \<noteq> CHR ''d''" "c \<noteq> CHR ''e''" "c \<noteq> CHR ''E''"
    "lowerChar c = c"
  using assms by (auto simp: isDigit_def isWhiteSpace_def charCode_def lowerChar_def)

lemma special_not_digit:
  "\<not> isDigit CHR ''.''" "\<not> isDigit CHR '':''" "\<not> isDigit CHR ''+''"
  "\<not> isWhiteSpace CHR ''+''" "\<not> isWhiteSpace CHR ''2''" "\<not> isWhiteSpace CHR ''.''" 
  by (auto simp: isDigit_def isWhiteSpace_def charCode_def)

lemma takeWhile_digits: "all_digits ds \<Longrightarrow> takeWhile isDigit ds = ds"
  by (simp add: all_digits_def list_all_iff)

lemma dropWhile_digits: "all_digits ds \<Longrightarrow> dropWhile isDigit ds = []"
  by (simp add: all_digits_def list_all_iff)

lemma takeWhile_digits_stop:
  "all_digits ds \<Longrightarrow> \<not> isDigit c \<Longrightarrow> takeWhile isDigit (ds @ c # r) = ds"
  by (simp add: all_digits_def list_all_iff takeWhile_tail)

lemma dropWhile_digits_stop:
  "all_digits ds \<Longrightarrow> \<not> isDigit c \<Longrightarrow> dropWhile isDigit (ds @ c # r) = c # r"
  by (simp add: all_digits_def list_all_iff dropWhile_append2)

lemma digits_head:
  assumes "all_digits ds" "ds \<noteq> []"
  obtains c cs where "ds = c # cs" "isDigit c" "all_digits cs"
  using assms by (cases ds) (auto simp: all_digits_def)

lemma trimStart_digit: "isDigit c \<Longrightarrow> trimStart (c # cs) = c # cs"
  by (simp add: trimStart_def digit_not_special)

lemma takeSign_digit: "isDigit c \<Longrightarrow> takeSign (c # cs) = (1, c # cs)"
  by (simp add: digit_not_special)

lemma not_Infinity: "isDigit c \<Longrightarrow> take 8 (c # cs) \<noteq> ''Infinity''"
  by (auto simp: digit_not_special take_Cons')

lemma parseFloat_seconds_form:
  assumes "all_digits s" "s \<noteq> []" "all_digits f"
  shows "parseFloat (seconds_form s f) = round_double (seconds_value s f)"
proof -
  obtain c cs where s: "s = c # cs" "isDigit c" "all_digits cs"
    using assms(1,2) by (rule digits_head)
  show ?thesis
  proof (cases "f = []")
    case True
    have st: "trimStart s = s" using s by (simp add: trimStart_digit)
    have sg: "takeSign s = (1, s)" using s by (simp add: digit_not_special)
    have ni: "take 8 s \<noteq> ''Infinity''" using s not_Infinity[of c cs] by simp
    have "parseFloat s = round_double (real (digitsVal s))"
      using assms(1,2) ni
      by (simp add: parseFloat_def st sg Let_def takeWhile_digits dropWhile_digits
          exponentPart_def pow10_def digitsVal_def)
    then show ?thesis using True by (simp add: seconds_form_def seconds_value_def digitsVal_def)
  next
    case False
    have tw: "takeWhile isDigit (s @ CHR ''.'' # f) = s"
      using assms(1) by (simp add: takeWhile_digits_stop special_not_digit)
    have dw: "dropWhile isDigit (s @ CHR ''.'' # f) = CHR ''.'' # f"
      using assms(1) by (simp add: dropWhile_digits_stop special_not_digit)
    have st: "trimStart (s @ CHR ''.'' # f) = s @ CHR ''.'' # f"
      using s by (simp add: trimStart_digit)
    have sg: "takeSign (s @ CHR ''.'' # f) = (1, s @ CHR ''.'' # f)"
      using s by (simp add: digit_not_special)
    have ni: "take 8 (s @ CHR ''.'' # f) \<noteq> ''Infinity''"
      using s not_Infinity[of c "cs @ CHR ''.'' # f"] by simp
    have "parseFloat (s @ CHR ''.'' # f) = round_double (seconds_value s f)"
      using assms(2,3) ni
      by (simp add: parseFloat_def st sg Let_def tw dw takeWhile_digits dropWhile_digits
          exponentPart_def pow10_def seconds_value_def)
    then show ?thesis using False by (simp add: seconds_form_def)
  qed
qed

lemma not_hex_prefix:
  assumes "all_digits m"
  shows "take 2 m \<noteq> ''0x''" "take 2 m \<noteq> ''0X''"
proof -
  have "\<forall>c\<in>set (take 2 m). isDigit c"
    using assms by (auto simp: all_digits_def list_all_iff dest: in_set_takeD)
  then show "take 2 m \<noteq> ''0x''" "take 2 m \<noteq> ''0X''"
    using digit_not_special(7,8) by fastforce+
qed

lemma parseInt_digits:
  assumes "all_digits m" "m \<noteq> []"
  shows "parseInt m = round_double (real (digitsVal m))"
proof -
  obtain c cs where m: "m = c # cs" "isDigit c" "all_digits cs"
    using assms by (rule digits_head)
  have st: "trimStart m = m" using m by (simp add: trimStart_digit)
  have sg: "takeSign m = (1, m)" using m by (simp add: digit_not_special)
  show ?thesis
    using assms not_hex_prefix[OF assms(1)]
    by (simp add: parseInt_def st sg Let_def takeWhile_digits)
qed

lemma js_split_none: "c \<notin> set xs \<Longrightarrow> js_split c xs = [xs]"
  by (induction xs) auto

lemma js_split_first: "c \<notin> set m \<Longrightarrow> js_split c (m @ c # r) = m # js_split c r"
  by (induction m) auto

lemma seconds_form_chars:
  assumes "all_digits s" "all_digits f"
  shows "\<forall>c\<in>set (seconds_form s f). isDigit c \<or> c = CHR ''.''"
  using assms by (auto simp: seconds_form_def all_digits_def list_all_iff)

lemma timeMs_seconds_form:
  assumes "all_digits s" "s \<noteq> []" "all_digits f"
  shows "timeMs (seconds_form s f) = Some (seconds_ms s f)"
proof -
  have "CHR '':'' \<notin> set (seconds_form s f)"
    using seconds_form_chars[OF assms(1,3)] digit_not_special(5) by auto
  then show ?thesis
    using parseFloat_seconds_form[OF assms]
    by (simp add: timeMs_def includes_char_def isNaN_def round_double_not_NaN seconds_ms_def)
qed

lemma timeMs_minutes_form:
  assumes "all_digits m" "m \<noteq> []" "all_digits s" "s \<noteq> []" "all_digits f"
  shows "timeMs (minutes_form m s f) = Some (minutes_ms m s f)"
proof -
  have nm: "CHR '':'' \<notin> set m"
    using assms(1) digit_not_special(5) by (auto simp: all_digits_def list_all_iff)
  have ns: "CHR '':'' \<notin> set (seconds_form s f)"
    using seconds_form_chars[OF assms(3,5)] digit_not_special(5) by auto
  have sp: "js_split CHR '':'' (minutes_form m s f) = [m, seconds_form s f]"
    using js_split_first[OF nm, of "seconds_form s f"] js_split_none[OF ns]
    by (simp add: minutes_form_def)
  show ?thesis
    using parseFloat_seconds_form[OF assms(3,4,5)] parseInt_digits[OF assms(1,2)]
    by (simp add: timeMs_def includes_char_def isNaN_def sp round_double_not_NaN
        minutes_ms_def) (simp add: minutes_form_def)
qed

lemma trim_id:
  assumes "xs \<noteq> []" "\<not> isWhiteSpace (hd xs)" "\<not> isWhiteSpace (last xs)"
  shows "trim xs = xs"
proof -
  have a: "dropWhile isWhiteSpace xs = xs"
    using assms(1,2) by (cases xs) auto
  have "rev (butlast xs @ [last xs]) = last xs # rev (butlast xs)" by simp
  then have r: "rev xs = last xs # rev (butlast xs)"
    using assms(1) by simp
  have b: "dropWhile isWhiteSpace (rev xs) = rev xs"
    unfolding r using assms(3) by simp
  show ?thesis by (simp add: trim_def a b)
qed

lemma endsWith_set: "endsWith s suf \<Longrightarrow> set suf \<subseteq> set s"
  by (metis endsWith_def set_drop_subset)

lemma endsWith_last: "endsWith s suf \<Longrightarrow> suf \<noteq> [] \<Longrightarrow> last s = last suf"
  by (metis endsWith_def last_drop not_le_imp_less drop_all)

lemma endsWith_append: "endsWith (b @ suf) suf"
  by (simp add: endsWith_def)

lemma parseTimeInput_suffix:
  assumes "b \<noteq> []" "isDigit (hd b)" "\<not> isWhiteSpace (last b)" "CHR ''+'' \<notin> set b"
    and "sfx = [] \<or> sfx = ''+'' \<or> sfx = ''+2''"
  shows "parseTimeInput (b @ sfx) =
           (case timeMs b of
              None \<Rightarrow> None
            | Some t \<Rightarrow>
                if js_le t (Fin 0) \<or> js_gt t (Fin 3600000) then None
                else Some \<lparr>parsed_time = t, parsed_penalty = suffix_penalty sfx\<rparr>)"
proof -
  have hd_bs: "hd (b @ sfx) = hd b" using assms(1) by simp
  have last_ws: "\<not> isWhiteSpace (last (b @ sfx))"
    using assms(3,5) by (auto simp: digit_not_special special_not_digit)
  have tr: "trim (b @ sfx) = b @ sfx"
    using assms(1,2) last_ws by (intro trim_id) (simp_all add: digit_not_special)
  have trb: "trim b = b"
    using assms(1,2,3) by (intro trim_id) (simp_all add: digit_not_special)
  have "hd (toLowerCase (b @ sfx)) = hd b"
    using assms(1,2) by (cases b) (simp_all add: toLowerCase_def digit_not_special)
  then have nd: "toLowerCase (b @ sfx) \<noteq> ''dnf''"
    using assms(2) digit_not_special(9)[of "hd b"] by auto
  have body: "has_suffix (b @ sfx) = (sfx \<noteq> []) \<and> numeric_body (b @ sfx) = b"
  proof -
    consider "sfx = []" | "sfx = ''+''" | "sfx = ''+2''" using assms(5) by blast
    then show ?thesis
    proof cases
      case 1
      have "\<not> endsWith b ''+''" "\<not> endsWith b ''+2''"
        using endsWith_set[of b "''+''"] endsWith_set[of b "''+2''"] assms(4) by auto
      then show ?thesis using 1 by (simp add: has_suffix_def numeric_body_def)
    next
      case 2
      have e1: "endsWith (b @ ''+'') ''+''" by (rule endsWith_append)
      have e2: "\<not> endsWith (b @ ''+'') ''+2''"
        using endsWith_last[of "b @ ''+''" "''+2''"] by auto
      show ?thesis
        using 2 e1 e2 by (simp add: has_suffix_def numeric_body_def replace_plus2_def trb)
    next
      case 3
      have e: "endsWith (b @ ''+2'') ''+2''" by (rule endsWith_append)
      show ?thesis
        using 3 e by (simp add: has_suffix_def numeric_body_def replace_plus2_def trb)
    qed
  qed
  have pen: "(if sfx \<noteq> [] then Some ''+2'' else None) = suffix_penalty sfx"
    by (simp add: suffix_penalty_def)
  show ?thesis
    using nd by (simp add: parseTimeInput_def tr Let_def body pen)
qed

lemma accept_code:
  "(if js_le t (Fin 0) \<or> js_gt t (Fin 3600000) then None
    else Some \<lparr>parsed_time = t, parsed_penalty = p\<rparr>) = accept t p"
  by (cases t) (auto simp: js_gt_def)

lemma seconds_form_body:
  assumes "all_digits s" "s \<noteq> []" "all_digits f"
  shows "seconds_form s f \<noteq> []" "isDigit (hd (seconds_form s f))"
    "\<not> isWhiteSpace (last (seconds_form s f))" "CHR ''+'' \<notin> set (seconds_form s f)"
proof -
  show "seconds_form s f \<noteq> []" using assms(2) by (simp add: seconds_form_def)
  show "isDigit (hd (seconds_form s f))"
    using assms(1,2) by (cases s) (auto simp: seconds_form_def all_digits_def)
  show "\<not> isWhiteSpace (last (seconds_form s f))"
    using assms digit_not_special(1)
    by (auto simp: seconds_form_def all_digits_def list_all_iff)
  show "CHR ''+'' \<notin> set (seconds_form s f)"
    using seconds_form_chars[OF assms(1,3)] digit_not_special(3) by auto
qed

lemma minutes_form_body:
  assumes "all_digits m" "m \<noteq> []" "all_digits s" "s \<noteq> []" "all_digits f"
  shows "minutes_form m s f \<noteq> []" "isDigit (hd (minutes_form m s f))"
    "\<not> isWhiteSpace (last (minutes_form m s f))" "CHR ''+'' \<notin> set (minutes_form m s f)"
proof -
  note sb = seconds_form_body[OF assms(3,4,5)]
  show "minutes_form m s f \<noteq> []" using assms(2) by (simp add: minutes_form_def)
  show "isDigit (hd (minutes_form m s f))"
    using assms(1,2) by (cases m) (auto simp: minutes_form_def all_digits_def)
  show "\<not> isWhiteSpace (last (minutes_form m s f))"
    using sb(1,3) by (simp add: minutes_form_def)
  show "CHR ''+'' \<notin> set (minutes_form m s f)"
    using sb(4) assms(1) digit_not_special(3)
    by (auto simp: minutes_form_def all_digits_def list_all_iff)
qed

lemma parseTimeInput_seconds_form:
  assumes "all_digits s" "s \<noteq> []" "all_digits f" "sfx = [] \<or> sfx = ''+'' \<or> sfx = ''+2''"
  shows "parseTimeInput (seconds_form s f @ sfx) = accept (seconds_ms s f) (suffix_penalty sfx)"
  using parseTimeInput_suffix[OF seconds_form_body[OF assms(1,2,3)] assms(4)]
  by (simp only: timeMs_seconds_form[OF assms(1,2,3)] option.case accept_code)

lemma parseTimeInput_minutes_form:
  assumes "all_digits m" "m \<noteq> []" "all_digits s" "s \<noteq> []" "all_digits f"
    "sfx = [] \<or> sfx = ''+'' \<or> sfx = ''+2''"
  shows "parseTimeInput (minutes_form m s f @ sfx)
           = accept (minutes_ms m s f) (suffix_penalty sfx)"
  using parseTimeInput_suffix[OF minutes_form_body[OF assms(1,2,3,4,5)] assms(6)]
  by (simp only: timeMs_minutes_form[OF assms(1,2,3,4,5)] option.case accept_code)

lemma parseFloat_exponent_letter:
  assumes "all_digits s" "s \<noteq> []"
  shows "parseFloat (s @ ''e'') = round_double (seconds_value s [])"
proof -
  obtain c cs where s: "s = c # cs" "isDigit c" "all_digits cs"
    using assms by (rule digits_head)
  have ne: "\<not> isDigit CHR ''e''" using digit_not_special(10) by blast
  have tw: "takeWhile isDigit (s @ ''e'') = s"
    using assms(1) ne by (simp add: takeWhile_digits_stop)
  have dw: "dropWhile isDigit (s @ ''e'') = ''e''"
    using assms(1) ne by (simp add: dropWhile_digits_stop)
  have st: "trimStart (s @ ''e'') = s @ ''e''" using s by (simp add: trimStart_digit)
  have sg: "takeSign (s @ ''e'') = (1, s @ ''e'')" using s by (simp add: digit_not_special)
  have ni: "take 8 (s @ ''e'') \<noteq> ''Infinity''"
    using s not_Infinity[of c "cs @ ''e''"] by simp
  show ?thesis
    using assms(2) ni
    by (simp add: parseFloat_def st sg Let_def tw dw exponentPart_def pow10_def
        seconds_value_def digitsVal_def)
qed

lemma parseTimeInput_exponent_suffix:
  assumes "all_digits s" "s \<noteq> []"
  shows "parseTimeInput (s @ ''e+2'') = accept (seconds_ms s []) (Some ''+2'')"
proof -
  have nc: "CHR '':'' \<notin> set (s @ ''e'')"
    using assms(1) digit_not_special(5) by (auto simp: all_digits_def list_all_iff)
  have tm: "timeMs (s @ ''e'') = Some (seconds_ms s [])"
    using nc parseFloat_exponent_letter[OF assms]
    by (simp add: timeMs_def includes_char_def isNaN_def round_double_not_NaN seconds_ms_def)
  have b: "s @ ''e'' \<noteq> []" "isDigit (hd (s @ ''e''))" "\<not> isWhiteSpace (last (s @ ''e''))"
    "CHR ''+'' \<notin> set (s @ ''e'')"
    using assms digit_not_special(3)
    by (cases s; auto simp: all_digits_def list_all_iff isWhiteSpace_def charCode_def)+
  have "parseTimeInput ((s @ ''e'') @ ''+2'') = accept (seconds_ms s []) (suffix_penalty ''+2'')"
    using parseTimeInput_suffix[OF b, of "''+2''"]
    by (simp only: tm option.case accept_code) simp
  then show ?thesis by (simp add: suffix_penalty_def)
qed

lemma parseFloat_NaN_iff: "parseFloat x = NaN \<longleftrightarrow> \<not> numeric_start x"
proof -
  obtain sg r where sr: "takeSign (trimStart x) = (sg, r)" by (cases "takeSign (trimStart x)")
  show ?thesis
  proof (cases "take 8 r = ''Infinity''")
    case True
    then show ?thesis by (simp add: parseFloat_def numeric_start_def sr)
  next
    case False
    show ?thesis
    proof (cases r)
      case Nil
      then show ?thesis
        using False by (simp add: parseFloat_def numeric_start_def sr)
    next
      case (Cons c cs)
      show ?thesis
      proof (cases "isDigit c")
        case True
        then show ?thesis
          using False Cons
          by (simp add: parseFloat_def numeric_start_def sr Let_def round_double_not_NaN)
      next
        case nd: False
        then show ?thesis
          using False Cons
          by (cases cs)
             (auto simp: parseFloat_def numeric_start_def sr Let_def round_double_not_NaN)
      qed
    qed
  qed
qed

lemma parseInt_NaN_iff: "parseInt x = NaN \<longleftrightarrow> \<not> integer_start x"
proof -
  obtain sg r where sr: "takeSign (trimStart x) = (sg, r)" by (cases "takeSign (trimStart x)")
  show ?thesis
  proof (cases "take 2 r = ''0x'' \<or> take 2 r = ''0X''")
    case True
    then show ?thesis
      by (cases "drop 2 r")
         (auto simp: parseInt_def integer_start_def sr Let_def round_double_not_NaN)
  next
    case False
    then show ?thesis
      by (cases r)
         (auto simp: parseInt_def integer_start_def sr Let_def round_double_not_NaN)
  qed
qed

lemma rejected_plain:
  assumes "toLowerCase (trim input) \<noteq> ''dnf''"
    and "CHR '':'' \<notin> set (numeric_body (trim input))"
    and "\<not> numeric_start (numeric_body (trim input))"
  shows "parseTimeInput input = None"
proof -
  have "timeMs (numeric_body (trim input)) = None"
    using assms(2,3) by (simp add: timeMs_def includes_char_def isNaN_def parseFloat_NaN_iff)
  then show ?thesis using assms(1) by (simp add: parseTimeInput_def Let_def)
qed

lemma js_split_two_pieces: "js_split c x = m # r # rest \<Longrightarrow> c \<in> set x"
  using js_split_none[of c x] by (cases "c \<in> set x") auto

lemma rejected_colon:
  assumes "toLowerCase (trim input) \<noteq> ''dnf''"
    and "js_split CHR '':'' (numeric_body (trim input)) = m # r # rest"
    and "\<not> integer_start m \<or> \<not> numeric_start r"
  shows "parseTimeInput input = None"
proof -
  have "CHR '':'' \<in> set (numeric_body (trim input))"
    using js_split_two_pieces[OF assms(2)] .
  then have "timeMs (numeric_body (trim input)) = None"
    using assms(2,3)
    by (auto simp: timeMs_def includes_char_def isNaN_def parseFloat_NaN_iff parseInt_NaN_iff Let_def)
  then show ?thesis using assms(1) by (simp add: parseTimeInput_def Let_def)
qed

lemma accepted_range:
  assumes "parseTimeInput input = Some p"
  shows "p = \<lparr>parsed_time = Fin 0, parsed_penalty = Some ''DNF''\<rparr> \<or>
         ((parsed_time p = NaN \<or> (\<exists>t. parsed_time p = Fin t \<and> 0 < t \<and> t \<le> 3600000)) \<and>
          (parsed_penalty p = None \<or> parsed_penalty p = Some ''+2''))"
proof (cases "toLowerCase (trim input) = ''dnf''")
  case True
  then show ?thesis using assms by (simp add: parseTimeInput_def)
next
  case False
  then obtain t where t: "timeMs (numeric_body (trim input)) = Some t"
    "\<not> js_le t (Fin 0)" "\<not> js_gt t (Fin 3600000)"
    "p = \<lparr>parsed_time = t, parsed_penalty = (if has_suffix (trim input) then Some ''+2'' else None)\<rparr>"
    using assms by (auto simp: parseTimeInput_def Let_def split: option.splits if_splits)
  have "t = NaN \<or> (\<exists>v. t = Fin v \<and> 0 < v \<and> v \<le> 3600000)"
    using t(2,3) by (cases t) (auto simp: js_gt_def)
  then show ?thesis using t(4) by auto
qed

lemma dnf_accepted:
  "toLowerCase (trim input) = ''dnf'' \<Longrightarrow>
   parseTimeInput input = Some \<lparr>parsed_time = Fin 0, parsed_penalty = Some ''DNF''\<rparr>"
  by (simp add: parseTimeInput_def)

lemma parse_examples:
  "parseTimeInput ''1:05.32''
     = Some \<lparr>parsed_time = Fin (8977512440791039 / 137438953472), parsed_penalty = None\<rparr>"
  "parseTimeInput ''12.5+'' = Some \<lparr>parsed_time = Fin 12500, parsed_penalty = Some ''+2''\<rparr>"
  "parseTimeInput ''abc'' = None"
  "parseTimeInput ''0'' = None"
  "parseTimeInput ''+2'' = None"
  "parseTimeInput ''12abc'' = Some \<lparr>parsed_time = Fin 12000, parsed_penalty = None\<rparr>"
  by code_simp+

lemma parse_boundary:
  "parseTimeInput ''3600.0000000000001''
     = Some \<lparr>parsed_time = Fin 3600000, parsed_penalty = None\<rparr>"
proof -
  have d: "all_digits ''3600''" "all_digits ''0000000000001''"
    by code_simp+
  have f: "seconds_form ''3600'' ''0000000000001'' = ''3600.0000000000001''"
    by (simp add: seconds_form_def)
  have v: "seconds_value ''3600'' ''0000000000001'' = 36000000000000001 / 10000000000000"
    by (simp add: seconds_value_def digitsVal_def digitVal_def charCode_def)
  have r: "round_double (36000000000000001 / 10000000000000) = Fin 3600"
    by code_simp
  have m: "d_mul (Fin 3600) (Fin 1000) = Fin 3600000"
    by code_simp
  have "parseTimeInput (seconds_form ''3600'' ''0000000000001'' @ [])
          = accept (seconds_ms ''3600'' ''0000000000001'') (suffix_penalty [])"
    using d by (intro parseTimeInput_seconds_form) simp_all
  then show ?thesis
    by (simp add: f seconds_ms_def v r m suffix_penalty_def)
qed

text \<open>
  Claim C7, as amended. \<open>parseTimeInput\<close> maps \<open>dnf\<close>, in any case and with white
  space around it, to a void result of duration 0. A body \<open>SS[.fraction]\<close> or
  \<open>MM:SS[.fraction]\<close>, alone or followed by \<open>+\<close> or \<open>+2\<close>, gives its duration in
  milliseconds as double arithmetic computes it, with the penalty \<open>+2\<close> exactly when the
  suffix is there, if that duration is above 0 and at most 3600000, and is rejected
  otherwise. The suffix is removed before the number is read: \<open>1e+2\<close> is one second with
  the penalty, and \<open>+2\<close> alone is rejected. An input whose body does not begin with a
  number is rejected, and every accepted result other than the void one has a duration
  above 0 and at most 3600000, or NaN. \<open>1:05.32\<close> gives 65319.99999999999, which is the
  double result of \<open>(1 * 60 + 5.32) * 1000\<close> and less than \<open>10^-11\<close> from 65320, with no
  penalty; \<open>12.5+\<close> gives 12500 with \<open>+2\<close>; \<open>abc\<close> and \<open>0\<close> are rejected.
\<close>

theorem parseTimeInput_contract:
  "(toLowerCase (trim input) = ''dnf'' \<longrightarrow>
      parseTimeInput input = Some \<lparr>parsed_time = Fin 0, parsed_penalty = Some ''DNF''\<rparr>) \<and>
   (all_digits s \<and> s \<noteq> [] \<and> all_digits f \<and> (sfx = [] \<or> sfx = ''+'' \<or> sfx = ''+2'') \<longrightarrow>
      parseTimeInput (seconds_form s f @ sfx) = accept (seconds_ms s f) (suffix_penalty sfx)) \<and>
   (all_digits m \<and> m \<noteq> [] \<and> all_digits s \<and> s \<noteq> [] \<and> all_digits f \<and>
    (sfx = [] \<or> sfx = ''+'' \<or> sfx = ''+2'') \<longrightarrow>
      parseTimeInput (minutes_form m s f @ sfx)
        = accept (minutes_ms m s f) (suffix_penalty sfx)) \<and>
   (all_digits s \<and> s \<noteq> [] \<longrightarrow>
      parseTimeInput (s @ ''e+2'') = accept (seconds_ms s []) (Some ''+2'')) \<and>
   (toLowerCase (trim input) \<noteq> ''dnf'' \<and> CHR '':'' \<notin> set (numeric_body (trim input)) \<and>
    \<not> numeric_start (numeric_body (trim input)) \<longrightarrow>
      parseTimeInput input = None) \<and>
   (toLowerCase (trim input) \<noteq> ''dnf'' \<and>
    js_split CHR '':'' (numeric_body (trim input)) = mm # r # rest \<and>
    (\<not> integer_start mm \<or> \<not> numeric_start r) \<longrightarrow>
      parseTimeInput input = None) \<and>
   (parseTimeInput input = Some p \<longrightarrow>
      p = \<lparr>parsed_time = Fin 0, parsed_penalty = Some ''DNF''\<rparr> \<or>
      ((parsed_time p = NaN \<or> (\<exists>t. parsed_time p = Fin t \<and> 0 < t \<and> t \<le> 3600000)) \<and>
       (parsed_penalty p = None \<or> parsed_penalty p = Some ''+2''))) \<and>
   parseTimeInput ''1:05.32''
     = Some \<lparr>parsed_time = Fin (8977512440791039 / 137438953472), parsed_penalty = None\<rparr> \<and>
   \<bar>8977512440791039 / 137438953472 - 65320\<bar> < (1 / 10 ^ 11 :: real) \<and>
   parseTimeInput ''12.5+'' = Some \<lparr>parsed_time = Fin 12500, parsed_penalty = Some ''+2''\<rparr> \<and>
   parseTimeInput ''abc'' = None \<and>
   parseTimeInput ''0'' = None \<and>
   parseTimeInput ''+2'' = None \<and>
   parseTimeInput ''12abc'' = Some \<lparr>parsed_time = Fin 12000, parsed_penalty = None\<rparr> \<and>
   parseTimeInput ''3600.0000000000001''
     = Some \<lparr>parsed_time = Fin 3600000, parsed_penalty = None\<rparr>"
proof -
  have near: "\<bar>8977512440791039 / 137438953472 - 65320\<bar> < (1 / 10 ^ 11 :: real)"
    by (simp add: abs_if field_simps)
  show ?thesis
    using dnf_accepted[of input] parseTimeInput_seconds_form[of s f sfx]
      parseTimeInput_minutes_form[of m s f sfx] parseTimeInput_exponent_suffix[of s]
      rejected_plain[of input] rejected_colon[of input mm r rest]
      accepted_range[of input p] parse_examples parse_boundary near
    by blast
qed

theorem parseTimeInput_contract_witness:
  "parseTimeInput '' DnF '' = Some \<lparr>parsed_time = Fin 0, parsed_penalty = Some ''DNF''\<rparr> \<and>
   parseTimeInput (seconds_form ''12'' ''5'' @ ''+'')
     = Some \<lparr>parsed_time = Fin 12500, parsed_penalty = Some ''+2''\<rparr> \<and>
   parseTimeInput (minutes_form ''61'' ''00'' [] @ ''+2'') = None \<and>
   parseTimeInput ''1e+2'' = Some \<lparr>parsed_time = Fin 1000, parsed_penalty = Some ''+2''\<rparr> \<and>
   parseTimeInput ''abc+'' = None \<and>
   parseTimeInput ''x:30'' = None"
proof -
  note inst1 = parseTimeInput_contract [where input = "'' DnF ''" and s = "''12''" and f = "''5''"
        and sfx = "''+''" and m = "''61''" and mm = "[]" and r = "[]" and rest = "[]"
        and p = "\<lparr>parsed_time = Fin 0, parsed_penalty = Some ''DNF''\<rparr>"]
  note inst2 = parseTimeInput_contract [where input = "''abc+''" and s = "''00''" and f = "[]"
        and sfx = "''+2''" and m = "''61''" and mm = "[]" and r = "[]" and rest = "[]"
        and p = "\<lparr>parsed_time = Fin 0, parsed_penalty = Some ''DNF''\<rparr>"]
  note inst3 = parseTimeInput_contract [where input = "''x:30''" and s = "''1''" and f = "[]"
        and sfx = "[]" and m = "''61''" and mm = "''x''" and r = "''30''" and rest = "[]"
        and p = "\<lparr>parsed_time = Fin 0, parsed_penalty = Some ''DNF''\<rparr>"]
  have d: "toLowerCase (trim '' DnF '') = ''dnf''"
    by code_simp
  have a: "all_digits ''12''" "all_digits ''5''" "all_digits ''1''"
    "all_digits ''61''" "all_digits ''00''" "all_digits []"
    by code_simp+
  have v1: "accept (seconds_ms ''12'' ''5'') (suffix_penalty ''+'')
              = Some \<lparr>parsed_time = Fin 12500, parsed_penalty = Some ''+2''\<rparr>"
    by code_simp
  have v3: "accept (minutes_ms ''61'' ''00'' []) (suffix_penalty ''+2'') = None"
    by code_simp
  have v4: "accept (seconds_ms ''1'' []) (Some ''+2'')
              = Some \<lparr>parsed_time = Fin 1000, parsed_penalty = Some ''+2''\<rparr>"
    by code_simp
  have r1: "toLowerCase (trim ''abc+'') \<noteq> ''dnf''"
    "CHR '':'' \<notin> set (numeric_body (trim ''abc+''))"
    "\<not> numeric_start (numeric_body (trim ''abc+''))"
    by code_simp+
  have r2: "toLowerCase (trim ''x:30'') \<noteq> ''dnf''"
    "js_split CHR '':'' (numeric_body (trim ''x:30'')) = ''x'' # ''30'' # []"
    "\<not> integer_start ''x''"
    by code_simp+
  have w1: "parseTimeInput '' DnF '' = Some \<lparr>parsed_time = Fin 0, parsed_penalty = Some ''DNF''\<rparr>"
    using inst1 d by blast
  have w2: "parseTimeInput (seconds_form ''12'' ''5'' @ ''+'')
              = Some \<lparr>parsed_time = Fin 12500, parsed_penalty = Some ''+2''\<rparr>"
    using inst1 a v1 by simp
  have w3: "parseTimeInput (minutes_form ''61'' ''00'' [] @ ''+2'') = None"
    using inst2 a v3 by simp
  have w4: "parseTimeInput ''1e+2'' = Some \<lparr>parsed_time = Fin 1000, parsed_penalty = Some ''+2''\<rparr>"
    using inst3 a v4 by simp
  have w5: "parseTimeInput ''abc+'' = None"
    using inst2 r1 by blast
  have w6: "parseTimeInput ''x:30'' = None"
    using inst3 r2 by blast
  from w1 w2 w3 w4 w5 w6 show ?thesis by blast
qed

text \<open>The duration of \<open>1:05.32\<close> is not 65320.\<close>

theorem parseTimeInput_contract_counterexample:
  "parseTimeInput ''1:05.32'' \<noteq> Some \<lparr>parsed_time = Fin 65320, parsed_penalty = None\<rparr>"
proof -
  have "parseTimeInput ''1:05.32''
          = Some \<lparr>parsed_time = Fin (8977512440791039 / 137438953472), parsed_penalty = None\<rparr>"
    by code_simp
  then show ?thesis by simp
qed

section \<open>Best, mean and worst\<close>

text \<open>
  \<open>Math.min\<close> and \<open>Math.max\<close> of finite numbers are the least and the greatest of
  them, and the exact mean of a list lies between the two.
\<close>

lemma foldl_js_min_Fin: "foldl js_min (Fin a) (map Fin rs) = Fin (Min (insert a (set rs)))"
proof (induction rs arbitrary: a)
  case Nil
  then show ?case by simp
next
  case (Cons r rs)
  have "js_min (Fin a) (Fin r) = Fin (min a r)" by (simp add: min_def)
  then have "foldl js_min (Fin a) (map Fin (r # rs)) = Fin (Min (insert (min a r) (set rs)))"
    using Cons.IH by simp
  moreover have "Min (insert (min a r) (set rs)) = Min (insert a (set (r # rs)))"
    by (cases "set rs = {}") (simp_all add: min.assoc)
  ultimately show ?case by simp
qed

lemma foldl_js_max_Fin: "foldl js_max (Fin a) (map Fin rs) = Fin (Max (insert a (set rs)))"
proof (induction rs arbitrary: a)
  case Nil
  then show ?case by simp
next
  case (Cons r rs)
  have "js_max (Fin a) (Fin r) = Fin (max a r)" by (simp add: max_def)
  then have "foldl js_max (Fin a) (map Fin (r # rs)) = Fin (Max (insert (max a r) (set rs)))"
    using Cons.IH by simp
  moreover have "Max (insert (max a r) (set rs)) = Max (insert a (set (r # rs)))"
    by (cases "set rs = {}") (simp_all add: max.assoc)
  ultimately show ?case by simp
qed

lemma Math_min_Fin: "rs \<noteq> [] \<Longrightarrow> Math_min (map Fin rs) = Fin (Min (set rs))"
  by (cases rs) (simp_all add: Math_min_def foldl_js_min_Fin)

lemma Math_max_Fin: "rs \<noteq> [] \<Longrightarrow> Math_max (map Fin rs) = Fin (Max (set rs))"
  by (cases rs) (simp_all add: Math_max_def foldl_js_max_Fin)

lemma sum_list_lower: "\<forall>r\<in>set rs. b \<le> r \<Longrightarrow> b * real (length rs) \<le> sum_list rs"
  by (induction rs) (auto simp: algebra_simps)

lemma sum_list_upper: "\<forall>r\<in>set rs. r \<le> w \<Longrightarrow> sum_list rs \<le> w * real (length rs)"
  by (induction rs) (auto simp: algebra_simps)

lemma mean_between:
  assumes "rs \<noteq> []"
  shows "Min (set rs) \<le> sum_list rs / real (length rs) \<and> sum_list rs / real (length rs) \<le> Max (set rs)"
proof -
  have pos: "0 < real (length rs)" using assms by simp
  have "Min (set rs) * real (length rs) \<le> sum_list rs"
    by (rule sum_list_lower) simp
  moreover have "sum_list rs \<le> Max (set rs) * real (length rs)"
    by (rule sum_list_upper) simp
  ultimately show ?thesis using pos by (simp add: pos_le_divide_eq pos_divide_le_eq)
qed


lemma stats_values:
  assumes "nonvoid_solves st \<noteq> []" and "effective_times st = map Fin rs"
  shows "best (updateStats st) = Some (Fin (Min (set rs)))"
    "worst (updateStats st) = Some (Fin (Max (set rs)))"
    "mean (updateStats st) = Some (double_mean rs)"
proof -
  obtain session where Some: "getCurrentSession st = Some session"
    using assms(1) by (cases "getCurrentSession st") (auto simp: nonvoid_solves_def)
  have vt: "validTimes (solves session) = map Fin rs"
    using Some assms(2) by (simp add: validTimes_def effective_times_def nonvoid_solves_def)
  have ne: "rs \<noteq> []"
    using assms by (auto simp: effective_times_def)
  have ns: "solves session \<noteq> []"
    using assms(1) Some by (auto simp: nonvoid_solves_def)
  show "best (updateStats st) = Some (Fin (Min (set rs)))"
    using Some ns ne by (simp add: updateStats_def Let_def vt Math_min_Fin)
  show "worst (updateStats st) = Some (Fin (Max (set rs)))"
    using Some ns ne by (simp add: updateStats_def Let_def vt Math_max_Fin)
  show "mean (updateStats st) = Some (double_mean rs)"
    using Some ns ne by (simp add: updateStats_def Let_def vt double_mean_def)
qed

lemma stats_no_data:
  assumes "nonvoid_solves st = []"
  shows "best (updateStats st) = None \<and> worst (updateStats st) = None \<and>
         mean (updateStats st) = None"
proof (cases "getCurrentSession st")
  case None
  then show ?thesis by (simp add: updateStats_def no_stats_def)
next
  case (Some session)
  then have "validTimes (solves session) = []"
    using assms by (simp add: nonvoid_solves_def validTimes_def)
  then show ?thesis
    using Some by (simp add: updateStats_def no_stats_def Let_def)
qed

subsection \<open>The error of one rounding\<close>

text \<open>
  \<open>expo\<close> is the binary exponent, and the rounding of a positive number in the normal
  range is off by at most the unit roundoff, relatively.
\<close>

lemma pow2_powi: "pow2 e = 2 powi e"
  by (simp add: pow2_def power_int_def inverse_eq_divide power_one_over)

lemma pow2_pos: "0 < pow2 e"
  by (simp add: pow2_powi)

lemma pow2_add: "pow2 (a + b) = pow2 a * pow2 b"
  by (simp add: pow2_powi power_int_add)

lemma pow2_mono: "a \<le> b \<Longrightarrow> pow2 a \<le> pow2 b"
  by (simp add: pow2_powi power_int_increasing)

lemma pow2_nat: "pow2 (int n) = 2 ^ n"
  by (simp add: pow2_def)

lemma expo_bounds:
  assumes "0 < a"
  shows "pow2 (expo a) \<le> a \<and> a < pow2 (expo a + 1)"
proof (cases "1 \<le> a")
  case True
  define n where "n = \<lfloor>a\<rfloor>"
  have n1: "1 \<le> n" using True by (simp add: n_def le_floor_iff)
  then have np: "0 < n" by simp
  have b: "2 ^ nat (bitlen n - 1) \<le> n" "n < 2 ^ nat (bitlen n)"
    using bitlen_bounds[OF np] by auto
  have bl: "1 \<le> bitlen n" using np by (auto simp: bitlen_alt_def)
  have e: "expo a = bitlen n - 1" using True by (simp add: expo_def n_def)
  have lo: "pow2 (bitlen n - 1) \<le> a"
  proof -
    have "pow2 (bitlen n - 1) = 2 ^ nat (bitlen n - 1)" using bl by (simp add: pow2_def)
    also have "\<dots> \<le> real_of_int n" using b(1) by (metis of_int_le_iff of_int_numeral of_int_power)
    also have "\<dots> \<le> a" by (simp add: n_def)
    finally show ?thesis .
  qed
  have hi: "a < pow2 (bitlen n)"
  proof -
    have "n + 1 \<le> 2 ^ nat (bitlen n)" using b(2) by simp
    then have "real_of_int (n + 1) \<le> 2 ^ nat (bitlen n)"
      by (metis of_int_le_iff of_int_numeral of_int_power)
    moreover have "a < real_of_int (n + 1)" by (simp add: n_def)
    moreover have "pow2 (bitlen n) = 2 ^ nat (bitlen n)" using bl by (simp add: pow2_def)
    ultimately show ?thesis by simp
  qed
  show ?thesis using lo hi by (simp add: e)
next
  case False
  then have a1: "a < 1" by simp
  define c where "c = \<lceil>1 / a\<rceil>"
  have inv: "1 < 1 / a" using assms a1 by simp
  have c2: "2 \<le> c" using inv by (simp add: c_def le_ceiling_iff)
  define k where "k = c - 1"
  have kp: "0 < k" using c2 by (simp add: k_def)
  have b: "2 ^ nat (bitlen k - 1) \<le> k" "k < 2 ^ nat (bitlen k)"
    using bitlen_bounds[OF kp] by auto
  have bl: "1 \<le> bitlen k" using kp by (auto simp: bitlen_alt_def)
  have e: "expo a = - bitlen k" using False by (simp add: expo_def c_def k_def)
  have up: "1 / a \<le> real_of_int c" by (simp add: c_def)
  have dn: "real_of_int k < 1 / a" by (simp add: k_def c_def) linarith
  have "c \<le> 2 ^ nat (bitlen k)" using b(2) by (simp add: k_def)
  then have "real_of_int c \<le> 2 ^ nat (bitlen k)"
    by (metis of_int_le_iff of_int_numeral of_int_power)
  then have "1 / a \<le> 2 ^ nat (bitlen k)" using up by linarith
  then have lo: "1 / 2 ^ nat (bitlen k) \<le> a"
    using assms by (simp add: field_simps)
  have "(2::real) ^ nat (bitlen k - 1) \<le> real_of_int k"
    using b(1) by (metis of_int_le_iff of_int_numeral of_int_power)
  then have "2 ^ nat (bitlen k - 1) < 1 / a" using dn by linarith
  then have hi: "a < 1 / 2 ^ nat (bitlen k - 1)"
    using assms by (simp add: field_simps)
  have p1: "pow2 (- bitlen k) = 1 / 2 ^ nat (bitlen k)"
    using bl by (simp add: pow2_def)
  have p2: "pow2 (1 - bitlen k) = 1 / 2 ^ nat (bitlen k - 1)"
  proof (cases "bitlen k = 1")
    case True
    then show ?thesis by (simp add: pow2_def)
  next
    case False
    then have "1 - bitlen k < 0" using bl by simp
    moreover have "nat (- (1 - bitlen k)) = nat (bitlen k - 1)" by simp
    ultimately show ?thesis by (simp add: pow2_def)
  qed
  show ?thesis using lo hi by (simp add: e p1 p2)
qed

lemma round_even_near: "\<bar>real_of_int (round_even z) - z\<bar> \<le> 1 / 2"
proof -
  have "real_of_int \<lfloor>z\<rfloor> \<le> z" "z < real_of_int \<lfloor>z\<rfloor> + 1" by linarith+
  then show ?thesis by (auto simp: round_even_def Let_def)
qed

lemma round_even_ge: "real_of_int k \<le> z \<Longrightarrow> k \<le> round_even z"
proof -
  assume "real_of_int k \<le> z"
  then have "k \<le> \<lfloor>z\<rfloor>" by (simp add: le_floor_iff)
  then show ?thesis by (auto simp: round_even_def Let_def)
qed

lemma pow2_less_imp: "pow2 a < pow2 b \<Longrightarrow> a < b"
  using pow2_mono[of b a] by (cases "a < b") auto

lemma round_double_normal:
  assumes "pow2 (- 1022) \<le> x" "x < pow2 1023"
  shows "\<exists>y. round_double x = Fin y \<and> \<bar>y - x\<bar> \<le> x * pow2 (- 53) \<and> pow2 (- 1022) \<le> y"
proof -
  have xp: "0 < x" using assms(1) pow2_pos[of "- 1022"] by linarith
  define e where "e = expo x"
  have eb: "pow2 e \<le> x" "x < pow2 (e + 1)"
    using expo_bounds[OF xp] by (simp_all add: e_def)
  have "pow2 (- 1022) < pow2 (e + 1)" using assms(1) eb(2) by linarith
  then have elo: "- 1022 \<le> e" using pow2_less_imp by fastforce
  have "pow2 e < pow2 1023" using assms(2) eb(1) by linarith
  then have ehi: "e < 1023" using pow2_less_imp by blast
  define q where "q = e - 52"
  define m where "m = round_even (x / pow2 q)"
  have rd: "round_double x = Fin (of_int m * pow2 q)"
    using xp elo ehi by (simp add: round_double_def Let_def e_def[symmetric] q_def m_def max_def)
  have pq: "0 < pow2 q" by (rule pow2_pos)
  have near: "\<bar>real_of_int m - x / pow2 q\<bar> \<le> 1 / 2"
    unfolding m_def by (rule round_even_near)
  have "\<bar>real_of_int m * pow2 q - x\<bar> = \<bar>real_of_int m - x / pow2 q\<bar> * pow2 q"
  proof -
    have "real_of_int m * pow2 q - x = (real_of_int m - x / pow2 q) * pow2 q"
      using pq by (simp add: field_simps)
    then show ?thesis using pq by (simp add: abs_mult)
  qed
  also have "\<dots> \<le> 1 / 2 * pow2 q"
    using near pq by (simp add: mult_right_mono)
  also have "\<dots> = pow2 e * pow2 (- 53)"
  proof -
    have "pow2 q = pow2 (e + (- 53) + 1)" by (simp add: q_def)
    also have "\<dots> = pow2 e * pow2 (- 53) * pow2 1" by (simp only: pow2_add)
    also have "\<dots> = pow2 e * pow2 (- 53) * 2" by (simp add: pow2_def)
    finally show ?thesis by simp
  qed
  also have "\<dots> \<le> x * pow2 (- 53)"
    using eb(1) pow2_pos[of "- 53"] by (simp add: mult_right_mono)
  finally have err: "\<bar>real_of_int m * pow2 q - x\<bar> \<le> x * pow2 (- 53)" .
  have "pow2 e = pow2 52 * pow2 q"
  proof -
    have "pow2 e = pow2 (52 + q)" by (simp add: q_def)
    then show ?thesis by (simp only: pow2_add)
  qed
  then have "pow2 52 * pow2 q \<le> x" using eb(1) by simp
  then have "pow2 52 \<le> x / pow2 q" using pq by (simp add: field_simps)
  moreover have "pow2 52 = real_of_int (2 ^ 52)" by (simp add: pow2_def)
  ultimately have "real_of_int (2 ^ 52) \<le> x / pow2 q" by simp
  then have "2 ^ 52 \<le> m" unfolding m_def by (rule round_even_ge)
  then have "real_of_int (2 ^ 52) \<le> real_of_int m" by (simp only: of_int_le_iff)
  then have "pow2 52 \<le> real_of_int m" by (simp add: pow2_def)
  then have "pow2 52 * pow2 q \<le> real_of_int m * pow2 q"
    using pq by (simp add: mult_right_mono)
  then have "pow2 e \<le> real_of_int m * pow2 q"
    using \<open>pow2 e = pow2 52 * pow2 q\<close> by simp
  then have low: "pow2 (- 1022) \<le> real_of_int m * pow2 q"
    using pow2_mono[OF elo] by linarith
  show ?thesis using rd err low by blast
qed

lemma round_double_nonneg:
  assumes "x = 0 \<or> pow2 (- 1022) \<le> x" "x < pow2 1023"
  shows "\<exists>y. round_double x = Fin y \<and> (1 - pow2 (- 53)) * x \<le> y \<and> y \<le> (1 + pow2 (- 53)) * x \<and>
             (y = 0 \<or> pow2 (- 1022) \<le> y)"
proof (cases "x = 0")
  case True
  then show ?thesis by (simp add: round_double_def)
next
  case False
  then have "pow2 (- 1022) \<le> x" using assms(1) by simp
  then obtain y where y: "round_double x = Fin y" "\<bar>y - x\<bar> \<le> x * pow2 (- 53)"
    "pow2 (- 1022) \<le> y"
    using round_double_normal[OF _ assms(2)] by blast
  have "(1 - pow2 (- 53)) * x \<le> y" "y \<le> (1 + pow2 (- 53)) * x"
    using y(2) by (simp_all add: algebra_simps abs_le_iff)
  then show ?thesis using y(1,3) by blast
qed

subsection \<open>The error of the rounded mean\<close>

text \<open>
  The running sum of \<open>n\<close> times that are 0 or normal stays within the factors
  \<open>(1 - u) ^ n\<close> and \<open>(1 + u) ^ n\<close> of the exact sum, and the quotient adds one more
  factor; so the mean of the panel is at least \<open>(1 - u) ^ (n + 1)\<close> times the least and
  at most \<open>(1 + u) ^ (n + 1)\<close> times the greatest time.
\<close>

lemma unit_roundoff_pow2: "pow2 (- 53) = unit_roundoff"
  by (simp add: pow2_def unit_roundoff_def)

lemma unit_roundoff_range: "0 < unit_roundoff" "unit_roundoff < 1"
  by (simp_all add: unit_roundoff_def)

lemma sum_list_nonneg_times:
  "\<forall>t\<in>set ts. t = 0 \<or> pow2 (- 1022) \<le> t \<Longrightarrow> 0 \<le> sum_list ts"
proof (induction ts)
  case Nil
  then show ?case by simp
next
  case (Cons t ts)
  have "0 \<le> t" using Cons.prems pow2_pos[of "- 1022"] by auto
  then show ?case using Cons by simp
qed

lemma foldl_d_add_bounds:
  assumes "0 \<le> a" "a = 0 \<or> pow2 (- 1022) \<le> a"
    and "\<forall>t\<in>set ts. t = 0 \<or> pow2 (- 1022) \<le> t"
    and "(a + sum_list ts) * (1 + unit_roundoff) ^ length ts < pow2 1023"
  shows "\<exists>s. foldl d_add (Fin a) (map Fin ts) = Fin s \<and>
             (1 - unit_roundoff) ^ length ts * (a + sum_list ts) \<le> s \<and>
             s \<le> (1 + unit_roundoff) ^ length ts * (a + sum_list ts) \<and>
             0 \<le> s \<and> (s = 0 \<or> pow2 (- 1022) \<le> s)"
  using assms
proof (induction ts arbitrary: a)
  case Nil
  then show ?case by simp
next
  case (Cons t ts)
  let ?u = unit_roundoff
  let ?n = "length ts"
  have u: "0 < ?u" "?u < 1" by (rule unit_roundoff_range)+
  have tn: "0 \<le> t" using Cons.prems(3) pow2_pos[of "- 1022"] by auto
  have sn: "0 \<le> sum_list ts" using Cons.prems(3) by (intro sum_list_nonneg_times) simp
  have p1: "1 \<le> (1 + ?u) ^ Suc ?n" using u by (intro one_le_power) simp
  have pn: "1 \<le> (1 + ?u) ^ ?n" using u by (intro one_le_power) simp
  have x0: "a + t = 0 \<or> pow2 (- 1022) \<le> a + t"
    using Cons.prems(1,2,3) tn by auto
  have tot: "0 \<le> a + t + sum_list ts" using Cons.prems(1) tn sn by simp
  have "a + t \<le> (a + t + sum_list ts) * 1" using sn by simp
  also have "\<dots> \<le> (a + t + sum_list ts) * (1 + ?u) ^ Suc ?n"
    using tot p1 by (intro mult_left_mono)
  finally have xlt: "a + t < pow2 1023" using Cons.prems(4) by (simp add: algebra_simps)
  obtain y where y: "round_double (a + t) = Fin y" "(1 - ?u) * (a + t) \<le> y"
    "y \<le> (1 + ?u) * (a + t)" "y = 0 \<or> pow2 (- 1022) \<le> y"
    using round_double_nonneg[OF x0 xlt] by (auto simp: unit_roundoff_pow2)
  have y0: "0 \<le> y" using y(4) pow2_pos[of "- 1022"] by auto
  have up: "y + sum_list ts \<le> (1 + ?u) * (a + t + sum_list ts)"
  proof -
    have "sum_list ts \<le> (1 + ?u) * sum_list ts"
      using mult_right_mono[of 1 "1 + ?u" "sum_list ts"] u sn by simp
    then show ?thesis using y(3) by (simp add: algebra_simps)
  qed
  have dn: "(1 - ?u) * (a + t + sum_list ts) \<le> y + sum_list ts"
  proof -
    have "(1 - ?u) * sum_list ts \<le> sum_list ts"
      using mult_right_mono[of "1 - ?u" 1 "sum_list ts"] u sn by simp
    then show ?thesis using y(2) by (simp add: algebra_simps)
  qed
  have "(y + sum_list ts) * (1 + ?u) ^ ?n \<le> ((1 + ?u) * (a + t + sum_list ts)) * (1 + ?u) ^ ?n"
    using up pn by (intro mult_right_mono) simp_all
  also have "\<dots> = (a + t + sum_list ts) * (1 + ?u) ^ Suc ?n" by simp
  finally have ov: "(y + sum_list ts) * (1 + ?u) ^ ?n < pow2 1023"
    using Cons.prems(4) by (simp add: algebra_simps)
  have rest: "\<forall>t\<in>set ts. t = 0 \<or> pow2 (- 1022) \<le> t" using Cons.prems(3) by simp
  obtain s where s: "foldl d_add (Fin y) (map Fin ts) = Fin s"
    "(1 - ?u) ^ ?n * (y + sum_list ts) \<le> s" "s \<le> (1 + ?u) ^ ?n * (y + sum_list ts)"
    "0 \<le> s" "s = 0 \<or> pow2 (- 1022) \<le> s"
    using Cons.IH[OF y0 y(4) rest ov] by blast
  have f: "foldl d_add (Fin a) (map Fin (t # ts)) = Fin s"
    using s(1) y(1) by (simp add: d_add_def)
  have lo: "(1 - ?u) ^ Suc ?n * (a + sum_list (t # ts)) \<le> s"
  proof -
    have "0 \<le> (1 - ?u) ^ ?n" using u by simp
    then have "(1 - ?u) ^ ?n * ((1 - ?u) * (a + t + sum_list ts)) \<le> (1 - ?u) ^ ?n * (y + sum_list ts)"
      using dn by (intro mult_left_mono)
    then show ?thesis using s(2) by (simp add: algebra_simps)
  qed
  have hi: "s \<le> (1 + ?u) ^ Suc ?n * (a + sum_list (t # ts))"
  proof -
    have "0 \<le> (1 + ?u) ^ ?n" using u by simp
    then have "(1 + ?u) ^ ?n * (y + sum_list ts) \<le> (1 + ?u) ^ ?n * ((1 + ?u) * (a + t + sum_list ts))"
      using up by (intro mult_left_mono)
    then show ?thesis using s(3) by (simp add: algebra_simps)
  qed
  show ?case using f lo hi s(4,5) by auto
qed

lemma double_mean_bounds_raw:
  assumes ne: "rs \<noteq> []"
    and A: "\<forall>t\<in>set rs. t = 0 \<or> pow2 (- 1022) \<le> t"
    and B: "sum_list rs * (1 + unit_roundoff) ^ length rs < pow2 1023"
    and C: "sum_list rs = 0 \<or>
            pow2 (- 1022) \<le> (1 - unit_roundoff) ^ length rs * sum_list rs / real (length rs)"
  shows "\<exists>m. double_mean rs = Fin m \<and>
             (1 - unit_roundoff) ^ Suc (length rs) * (sum_list rs / real (length rs)) \<le> m \<and>
             m \<le> (1 + unit_roundoff) ^ Suc (length rs) * (sum_list rs / real (length rs))"
proof -
  let ?u = unit_roundoff
  let ?n = "length rs"
  let ?S = "sum_list rs"
  have u: "0 < ?u" "?u < 1" by (rule unit_roundoff_range)+
  have np: "0 < real ?n" using ne by simp
  have n1: "1 \<le> real ?n" using ne by (cases rs) simp_all
  obtain s where s: "foldl d_add (Fin 0) (map Fin rs) = Fin s"
    "(1 - ?u) ^ ?n * ?S \<le> s" "s \<le> (1 + ?u) ^ ?n * ?S" "0 \<le> s"
    using foldl_d_add_bounds[of 0 rs] A B by auto
  have dm: "double_mean rs = round_double (s / real ?n)"
    using ne by (simp add: double_mean_def s(1) d_div_def)
  have x0: "s / real ?n = 0 \<or> pow2 (- 1022) \<le> s / real ?n"
  proof (cases "?S = 0")
    case True
    then have "s = 0" using s(3,4) by simp
    then show ?thesis by simp
  next
    case False
    then have "pow2 (- 1022) \<le> (1 - ?u) ^ ?n * ?S / real ?n" using C by simp
    also have "\<dots> \<le> s / real ?n" using s(2) np by (simp add: divide_right_mono)
    finally show ?thesis by simp
  qed
  have "s / real ?n \<le> s / 1"
  proof (rule divide_left_mono)
    show "1 \<le> real ?n" by (rule n1)
    show "0 \<le> s" by (rule s(4))
    show "0 < real ?n * 1" using np by simp
  qed
  then have "s / real ?n \<le> s" by simp
  then have xlt: "s / real ?n < pow2 1023" using s(3) B by (simp add: mult.commute)
  obtain m where m: "round_double (s / real ?n) = Fin m" "(1 - ?u) * (s / real ?n) \<le> m"
    "m \<le> (1 + ?u) * (s / real ?n)"
    using round_double_nonneg[OF x0 xlt] by (auto simp: unit_roundoff_pow2)
  have lo: "(1 - ?u) ^ Suc ?n * (?S / real ?n) \<le> m"
  proof -
    have "(1 - ?u) ^ ?n * ?S / real ?n \<le> s / real ?n"
      using s(2) np by (simp add: divide_right_mono)
    then have "(1 - ?u) * ((1 - ?u) ^ ?n * ?S / real ?n) \<le> (1 - ?u) * (s / real ?n)"
      using u by (intro mult_left_mono) simp_all
    then have "(1 - ?u) * ((1 - ?u) ^ ?n * ?S / real ?n) \<le> m"
      using m(2) by (rule order_trans)
    moreover have "(1 - ?u) ^ Suc ?n * (?S / real ?n) = (1 - ?u) * ((1 - ?u) ^ ?n * ?S / real ?n)"
      by simp
    ultimately show ?thesis by (simp only:)
  qed
  have hi: "m \<le> (1 + ?u) ^ Suc ?n * (?S / real ?n)"
  proof -
    have "s / real ?n \<le> (1 + ?u) ^ ?n * ?S / real ?n"
      using s(3) np by (simp add: divide_right_mono)
    then have "(1 + ?u) * (s / real ?n) \<le> (1 + ?u) * ((1 + ?u) ^ ?n * ?S / real ?n)"
      using u by (intro mult_left_mono) simp_all
    with m(3) have "m \<le> (1 + ?u) * ((1 + ?u) ^ ?n * ?S / real ?n)"
      by (rule order_trans)
    moreover have "(1 + ?u) ^ Suc ?n * (?S / real ?n) = (1 + ?u) * ((1 + ?u) ^ ?n * ?S / real ?n)"
      by simp
    ultimately show ?thesis by (simp only:)
  qed
  show ?thesis using dm m(1) lo hi by auto
qed

lemma roundoff_powers:
  assumes "real n \<le> 2 ^ 52"
  shows "1 / 2 \<le> (1 - unit_roundoff) ^ n" "(1 + unit_roundoff) ^ n \<le> 2"
proof -
  let ?u = unit_roundoff
  have u: "0 < ?u" "?u < 1" by (rule unit_roundoff_range)+
  have "real n * ?u \<le> 2 ^ 52 * ?u" using assms u by (simp add: mult_right_mono)
  also have "\<dots> = 1 / 2" by (simp add: unit_roundoff_def)
  finally have nu: "real n * ?u \<le> 1 / 2" .
  have "1 + real n * (- ?u) \<le> (1 + (- ?u)) ^ n"
    using u by (intro Bernoulli_inequality) simp
  then show lo: "1 / 2 \<le> (1 - ?u) ^ n" using nu by simp
  have "(1 + ?u) ^ n * (1 - ?u) ^ n = ((1 + ?u) * (1 - ?u)) ^ n" by (simp add: power_mult_distrib)
  also have "\<dots> \<le> 1 ^ n"
  proof -
    have e: "(1 + ?u) * (1 - ?u) = 1 - ?u * ?u" by (simp add: algebra_simps)
    have "0 \<le> ?u * ?u" using u by simp
    then have "(1 + ?u) * (1 - ?u) \<le> 1" using e by linarith
    moreover have "0 \<le> (1 + ?u) * (1 - ?u)" using u by simp
    ultimately show ?thesis by (intro power_mono)
  qed
  finally have prod: "(1 + ?u) ^ n * (1 - ?u) ^ n \<le> 1" by simp
  have pp: "0 \<le> (1 + ?u) ^ n" using u by simp
  have "(1 + ?u) ^ n * (1 / 2) \<le> (1 + ?u) ^ n * (1 - ?u) ^ n"
    using lo pp by (intro mult_left_mono)
  then show "(1 + ?u) ^ n \<le> 2" using prod by simp
qed

lemma ordinary_times_conditions:
  assumes "ordinary_times rs" "rs \<noteq> []"
  shows "\<forall>t\<in>set rs. t = 0 \<or> pow2 (- 1022) \<le> t"
    and "sum_list rs * (1 + unit_roundoff) ^ length rs < pow2 1023"
    and "sum_list rs = 0 \<or>
         pow2 (- 1022) \<le> (1 - unit_roundoff) ^ length rs * sum_list rs / real (length rs)"
proof -
  let ?u = unit_roundoff
  let ?n = "length rs"
  have len: "real ?n \<le> 2 ^ 52" using assms(1) by (simp add: ordinary_times_def)
  have each: "\<forall>t\<in>set rs. t = 0 \<or> (1 / 2 ^ 900 \<le> t \<and> t \<le> 2 ^ 900)"
    using assms(1) by (simp add: ordinary_times_def list_all_iff)
  have p900: "pow2 (- 900) = 1 / 2 ^ 900" by (simp add: pow2_def)
  have small: "pow2 (- 1022) \<le> 1 / 2 ^ 900"
    using pow2_mono[of "- 1022" "- 900"] by (simp add: p900)
  show A: "\<forall>t\<in>set rs. t = 0 \<or> pow2 (- 1022) \<le> t"
    using each small by force
  have nonneg: "\<forall>t\<in>set rs. 0 \<le> t" using each by force
  have upper: "\<forall>t\<in>set rs. t \<le> 2 ^ 900" using each by force
  have sum_hi: "sum_list rs \<le> 2 ^ 900 * real ?n"
    using sum_list_upper[OF upper] .
  have sum_lo: "0 \<le> sum_list rs" using nonneg by (simp add: sum_list_nonneg)
  have pw: "1 / 2 \<le> (1 - ?u) ^ ?n" "(1 + ?u) ^ ?n \<le> 2" using roundoff_powers[OF len] .
  have "sum_list rs * (1 + ?u) ^ ?n \<le> (2 ^ 900 * real ?n) * 2"
    using sum_hi pw(2) sum_lo unit_roundoff_range by (intro mult_mono) simp_all
  also have "\<dots> \<le> (2 ^ 900 * 2 ^ 52) * 2" using len by simp
  also have "\<dots> = 2 ^ 953" by (simp add: power_add[symmetric])
  also have "\<dots> < 2 ^ 1023" by (intro power_strict_increasing) simp_all
  also have "\<dots> = pow2 1023" by (simp add: pow2_def)
  finally show "sum_list rs * (1 + ?u) ^ ?n < pow2 1023" .
  show "sum_list rs = 0 \<or> pow2 (- 1022) \<le> (1 - ?u) ^ ?n * sum_list rs / real ?n"
  proof (cases "sum_list rs = 0")
    case True
    then show ?thesis by simp
  next
    case False
    then obtain t where t: "t \<in> set rs" "t \<noteq> 0"
      by (metis sum_list_eq_0_iff sum_list_nonneg_eq_0_iff nonneg)
    then have "1 / 2 ^ 900 \<le> t" using each by force
    moreover have "t \<le> sum_list rs" using t(1) nonneg by (simp add: member_le_sum_list)
    ultimately have big: "1 / 2 ^ 900 \<le> sum_list rs" by linarith
    have np: "0 < real ?n" using assms(2) by simp
    have "pow2 (- 1022) \<le> pow2 (- 953)" by (intro pow2_mono) simp
    also have "\<dots> = (1 / 2) * (1 / 2 ^ 900) / 2 ^ 52"
      by (simp add: pow2_def power_add[symmetric])
    also have "\<dots> \<le> (1 - ?u) ^ ?n * sum_list rs / 2 ^ 52"
      using pw(1) big by (intro divide_right_mono mult_mono) simp_all
    also have "\<dots> \<le> (1 - ?u) ^ ?n * sum_list rs / real ?n"
    proof -
      have "0 \<le> (1 - ?u) ^ ?n * sum_list rs" using pw(1) sum_lo by simp
      then show ?thesis using len np by (intro divide_left_mono) simp_all
    qed
    finally show ?thesis by simp
  qed
qed

lemma effective_time_rounded:
  "getEffectiveTime_double s
     = (if penalty s = Some ''+2'' then round_num (getEffectiveTime s) else getEffectiveTime s)"
  by (simp add: getEffectiveTime_double_def getEffectiveTime_def d_add_def)

lemma getEffectiveTime_double_exact:
  "round_double (time s + 2000) = Fin (time s + 2000) \<Longrightarrow>
   getEffectiveTime_double s = getEffectiveTime s"
  by (simp add: getEffectiveTime_double_def getEffectiveTime_def d_add_def)

lemma double_mean_bounds:
  assumes ne: "rs \<noteq> []" and ot: "ordinary_times rs"
  shows "\<exists>m. double_mean rs = Fin m \<and>
             (1 - unit_roundoff) ^ Suc (length rs) * Min (set rs) \<le> m \<and>
             m \<le> (1 + unit_roundoff) ^ Suc (length rs) * Max (set rs)"
proof -
  let ?u = unit_roundoff
  have u: "0 < ?u" "?u < 1" by (rule unit_roundoff_range)+
  obtain m where m: "double_mean rs = Fin m"
    "(1 - ?u) ^ Suc (length rs) * (sum_list rs / real (length rs)) \<le> m"
    "m \<le> (1 + ?u) ^ Suc (length rs) * (sum_list rs / real (length rs))"
    using double_mean_bounds_raw[OF ne ordinary_times_conditions[OF ot ne]] by blast
  have mb: "Min (set rs) \<le> sum_list rs / real (length rs)"
    "sum_list rs / real (length rs) \<le> Max (set rs)"
    using mean_between[OF ne] by simp_all
  have "(1 - ?u) ^ Suc (length rs) * Min (set rs)
          \<le> (1 - ?u) ^ Suc (length rs) * (sum_list rs / real (length rs))"
    using mb(1) u by (intro mult_left_mono) simp_all
  then have lo: "(1 - ?u) ^ Suc (length rs) * Min (set rs) \<le> m" using m(2) by linarith
  have "(1 + ?u) ^ Suc (length rs) * (sum_list rs / real (length rs))
          \<le> (1 + ?u) ^ Suc (length rs) * Max (set rs)"
    using mb(2) u by (intro mult_left_mono) simp_all
  then have hi: "m \<le> (1 + ?u) ^ Suc (length rs) * Max (set rs)" using m(3) by linarith
  show ?thesis using m(1) lo hi by blast
qed

lemma ordinary_effective_time:
  assumes t: "time s = 0 \<or> (1 / 2 ^ 900 \<le> time s \<and> time s \<le> 2 ^ 899)"
    and nv: "penalty s \<noteq> Some ''DNF''"
  shows "\<exists>y. getEffectiveTime_double s = Fin y \<and> (y = 0 \<or> (1 / 2 ^ 900 \<le> y \<and> y \<le> 2 ^ 900))"
proof (cases "penalty s = Some ''+2''")
  case False
  have "(2::real) ^ 899 \<le> 2 ^ 900" by (rule power_increasing) simp_all
  then show ?thesis using t nv False by (auto simp: getEffectiveTime_double_def)
next
  case True
  define x where "x = time s + 2000"
  have t0: "0 \<le> time s"
  proof -
    have "(0::real) \<le> 1 / 2 ^ 900" by simp
    then show ?thesis using t by linarith
  qed
  have x1: "2000 \<le> x" using t0 by (simp add: x_def)
  have p898: "(2000::real) \<le> 2 ^ 898"
  proof -
    have "(2::real) ^ 11 \<le> 2 ^ 898" by (rule power_increasing) simp_all
    then show ?thesis by simp
  qed
  have t899: "time s \<le> 2 ^ 899" using t by auto
  have x2: "x \<le> 3 * 2 ^ 898"
  proof -
    have "(2::real) ^ 899 = 2 * 2 ^ 898" by (simp add: power_Suc[symmetric] del: power_Suc)
    then show ?thesis using t899 p898 by (simp add: x_def)
  qed
  have lowp: "pow2 (- 1022) \<le> 1"
    using pow2_mono[of "- 1022" 0] by (simp add: pow2_def)
  have p900: "(2::real) ^ 900 = 4 * 2 ^ 898"
    by (simp add: power_Suc[symmetric] del: power_Suc)
  have lt: "x < pow2 1023"
  proof -
    have "(2::real) ^ 900 \<le> 2 ^ 1022" by (rule power_increasing) simp_all
    moreover have "(2::real) ^ 1022 < 2 ^ 1023" by (rule power_strict_increasing) simp_all
    moreover have "pow2 1023 = 2 ^ 1023" using pow2_nat[of 1023] by simp
    moreover have "x < 2 ^ 900" using x2 p900 by simp
    ultimately show ?thesis by linarith
  qed
  have ge: "x = 0 \<or> pow2 (- 1022) \<le> x" using x1 lowp by linarith
  obtain y where y: "round_double x = Fin y" "(1 - pow2 (- 53)) * x \<le> y"
    "y \<le> (1 + pow2 (- 53)) * x"
    using round_double_nonneg[OF ge lt] by blast
  have u: "0 < unit_roundoff" "unit_roundoff \<le> 1 / 4"
  proof -
    show "0 < unit_roundoff" by (rule unit_roundoff_range)
    have "(2::real) ^ 2 \<le> 2 ^ 53" by (rule power_increasing) simp_all
    then have "1 / (2::real) ^ 53 \<le> 1 / 2 ^ 2" by (intro divide_left_mono) simp_all
    then show "unit_roundoff \<le> 1 / 4" by (simp add: unit_roundoff_def)
  qed
  have ylo: "1 \<le> y"
  proof -
    have "3 / 4 * x \<le> (1 - unit_roundoff) * x"
      using u x1 by (intro mult_right_mono) simp_all
    then show ?thesis using y(2) x1 unfolding unit_roundoff_pow2 by linarith
  qed
  have yhi: "y \<le> 2 ^ 900"
  proof -
    have "(1 + unit_roundoff) * x \<le> 5 / 4 * x"
      using u x1 by (intro mult_right_mono) simp_all
    then have "y \<le> 5 / 4 * x" using y(3) unfolding unit_roundoff_pow2 by linarith
    moreover have "5 / 4 * x \<le> 4 * 2 ^ 898" using x2 by simp
    ultimately show ?thesis using p900 by linarith
  qed
  have "(1::real) / 2 ^ 900 \<le> 1" by simp
  then have "1 / 2 ^ 900 \<le> y" using ylo by linarith
  moreover have "getEffectiveTime_double s = Fin y"
    using True y(1) by (simp add: getEffectiveTime_double_def d_add_def x_def)
  ultimately show ?thesis using yhi by blast
qed

lemma ordinary_effective_times:
  assumes "list_all (\<lambda>s. time s = 0 \<or> (1 / 2 ^ 900 \<le> time s \<and> time s \<le> 2 ^ 899)) ss"
    and "list_all (\<lambda>s. penalty s \<noteq> Some ''DNF'') ss"
  shows "\<exists>rs. map getEffectiveTime_double ss = map Fin rs \<and> length rs = length ss \<and>
              list_all (\<lambda>t. t = 0 \<or> (1 / 2 ^ 900 \<le> t \<and> t \<le> 2 ^ 900)) rs"
  using assms
proof (induction ss)
  case Nil
  then show ?case by simp
next
  case (Cons s ss)
  obtain y where y: "getEffectiveTime_double s = Fin y"
    "y = 0 \<or> (1 / 2 ^ 900 \<le> y \<and> y \<le> 2 ^ 900)"
    using ordinary_effective_time[of s] Cons.prems by auto
  obtain rs where rs: "map getEffectiveTime_double ss = map Fin rs" "length rs = length ss"
    "list_all (\<lambda>t. t = 0 \<or> (1 / 2 ^ 900 \<le> t \<and> t \<le> 2 ^ 900)) rs"
    using Cons.IH Cons.prems by auto
  have "map getEffectiveTime_double (s # ss) = map Fin (y # rs) \<and>
        length (y # rs) = length (s # ss) \<and>
        list_all (\<lambda>t. t = 0 \<or> (1 / 2 ^ 900 \<le> t \<and> t \<le> 2 ^ 900)) (y # rs)"
    using y rs by simp
  then show ?case by blast
qed

lemma nonvoid_solves_nonvoid: "list_all (\<lambda>s. penalty s \<noteq> Some ''DNF'') (nonvoid_solves st)"
  by (cases "getCurrentSession st") (simp_all add: nonvoid_solves_def list_all_iff)

lemma ordinary_solves_times:
  assumes "ordinary_solves st"
  shows "\<exists>rs. effective_times st = map Fin rs \<and> length rs = length (nonvoid_solves st) \<and>
              ordinary_times rs"
proof -
  obtain rs where rs: "map getEffectiveTime_double (nonvoid_solves st) = map Fin rs"
    "length rs = length (nonvoid_solves st)"
    "list_all (\<lambda>t. t = 0 \<or> (1 / 2 ^ 900 \<le> t \<and> t \<le> 2 ^ 900)) rs"
    using ordinary_effective_times[OF _ nonvoid_solves_nonvoid, of st] assms
    unfolding ordinary_solves_def by blast
  have "ordinary_times rs"
    using rs(2,3) assms unfolding ordinary_times_def ordinary_solves_def by simp
  then show ?thesis using rs(1,2) unfolding effective_times_def by blast
qed

subsection \<open>The examples\<close>

lemma session_of_times: "effective_times (session_of ts) = map Fin ts"
  by (simp add: effective_times_def nonvoid_solves_def getCurrentSession_def session_of_def
      State_def example_solve_def getEffectiveTime_double_def comp_def)

lemma session_of_nonvoid: "ts \<noteq> [] \<Longrightarrow> nonvoid_solves (session_of ts) \<noteq> []"
  by (simp add: nonvoid_solves_def getCurrentSession_def session_of_def
      State_def example_solve_def)

lemma mean_five_typed:
  "double_mean [typed_201, typed_201, typed_201, typed_201, typed_201]
     = Fin (4420036743659519 / 2199023255552)"
  unfolding typed_201_def by code_simp

lemma mean_three:
  "double_mean [double_546135, double_546135, double_546135]
     = Fin (6004817828354459 / 1099511627776)"
  unfolding double_546135_def by code_simp

lemma example_nonvoid:
  "nonvoid_solves example_state = [example_solve 10000 None, example_solve 12000 (Some ''+2'')]"
  by (simp add: nonvoid_solves_def getCurrentSession_def example_state_def example_session_def
      example_solve_def State_def)

lemma example_sum: "d_add (Fin 12000) (Fin 2000) = Fin 14000"
  by code_simp

lemma example_times: "effective_times example_state = map Fin [10000, 14000]"
  by (simp add: effective_times_def example_nonvoid getEffectiveTime_double_def example_solve_def
      example_sum)

lemma example_mean: "double_mean [10000, 14000] = Fin 12000"
  by code_simp

lemma example_ordinary_solves: "ordinary_solves example_state"
  by (simp add: ordinary_solves_def example_nonvoid example_solve_def)

subsection \<open>The panel\<close>

text \<open>
  Claim C8, as amended. With \<open>u = 1 / 2 ^ 53\<close> the unit roundoff and \<open>n\<close> the number of
  solves of the current session that are not void: when \<open>n > 0\<close>, \<open>n\<close> is at most
  \<open>2 ^ 52\<close>, and each of their times is 0 or between \<open>1 / 2 ^ 900\<close> and \<open>2 ^ 899\<close>
  milliseconds, the panel shows finite numbers best, mean and worst with
  \<open>best \<le> worst\<close> and
  \<open>(1 - u) ^ (n + 1) * best \<le> mean \<le> (1 + u) ^ (n + 1) * worst\<close>. Whenever \<open>n > 0\<close> and
  the effective times are finite, best is the least and worst the greatest of them, the
  mean shown is their sum divided by \<open>n\<close> as double arithmetic computes it, and the exact
  mean lies between best and worst. When no solve of the session is not void, best, worst
  and mean are all reported as no data. The effective times of the panel are those of
  \<open>getEffectiveTime\<close>, the sum of a penalty rounded; on the example session, with one
  solve of each penalty, best, mean and worst are 10000, 12000 and 14000.
\<close>

theorem updateStats_best_mean_worst:
  "(nonvoid_solves st \<noteq> [] \<and> ordinary_solves st \<longrightarrow>
      (\<exists>b m w. best (updateStats st) = Some (Fin b) \<and> mean (updateStats st) = Some (Fin m) \<and>
           worst (updateStats st) = Some (Fin w) \<and> b \<le> w \<and>
           (1 - unit_roundoff) ^ Suc (length (nonvoid_solves st)) * b \<le> m \<and>
           m \<le> (1 + unit_roundoff) ^ Suc (length (nonvoid_solves st)) * w)) \<and>
   (nonvoid_solves st \<noteq> [] \<and> effective_times st = map Fin rs \<longrightarrow>
      best (updateStats st) = Some (Fin (Min (set rs))) \<and>
      worst (updateStats st) = Some (Fin (Max (set rs))) \<and>
      Min (set rs) \<le> Max (set rs) \<and>
      mean (updateStats st) = Some (double_mean rs) \<and>
      Min (set rs) \<le> sum_list rs / real (length rs) \<and>
      sum_list rs / real (length rs) \<le> Max (set rs)) \<and>
   (nonvoid_solves st = [] \<longrightarrow>
      best (updateStats st) = None \<and> worst (updateStats st) = None \<and>
      mean (updateStats st) = None) \<and>
   effective_times st
     = map (\<lambda>s. if penalty s = Some ''+2'' then round_num (getEffectiveTime s)
                 else getEffectiveTime s) (nonvoid_solves st) \<and>
   best (updateStats example_state) = Some (Fin 10000) \<and>
   mean (updateStats example_state) = Some (Fin 12000) \<and>
   worst (updateStats example_state) = Some (Fin 14000)"
proof -
  let ?u = unit_roundoff
  have part3: "effective_times st
     = map (\<lambda>s. if penalty s = Some ''+2'' then round_num (getEffectiveTime s)
                 else getEffectiveTime s) (nonvoid_solves st)"
    unfolding effective_times_def
    by (rule map_cong[OF refl]) (simp add: effective_time_rounded)
  have n: "nonvoid_solves example_state \<noteq> []" by (simp add: example_nonvoid)
  have part4: "best (updateStats example_state) = Some (Fin 10000) \<and>
   mean (updateStats example_state) = Some (Fin 12000) \<and>
   worst (updateStats example_state) = Some (Fin 14000)"
    using stats_values[OF n example_times] by (simp add: example_mean)
  have part2: "best (updateStats st) = Some (Fin (Min (set rs))) \<and>
      worst (updateStats st) = Some (Fin (Max (set rs))) \<and>
      Min (set rs) \<le> Max (set rs) \<and>
      mean (updateStats st) = Some (double_mean rs) \<and>
      Min (set rs) \<le> sum_list rs / real (length rs) \<and>
      sum_list rs / real (length rs) \<le> Max (set rs)"
    if nv: "nonvoid_solves st \<noteq> []" and et: "effective_times st = map Fin rs" for rs
  proof -
    have ne: "rs \<noteq> []" using nv et by (auto simp: effective_times_def)
    have mb: "Min (set rs) \<le> sum_list rs / real (length rs)"
      "sum_list rs / real (length rs) \<le> Max (set rs)"
      using mean_between[OF ne] by simp_all
    then have "Min (set rs) \<le> Max (set rs)" by linarith
    then show ?thesis using stats_values[OF nv et] mb by simp
  qed
  have part1: "\<exists>b m w. best (updateStats st) = Some (Fin b) \<and>
           mean (updateStats st) = Some (Fin m) \<and>
           worst (updateStats st) = Some (Fin w) \<and> b \<le> w \<and>
           (1 - ?u) ^ Suc (length (nonvoid_solves st)) * b \<le> m \<and>
           m \<le> (1 + ?u) ^ Suc (length (nonvoid_solves st)) * w"
    if nv: "nonvoid_solves st \<noteq> []" and os: "ordinary_solves st"
  proof -
    obtain ts where ts: "effective_times st = map Fin ts"
      "length ts = length (nonvoid_solves st)" "ordinary_times ts"
      using ordinary_solves_times[OF os] by blast
    have ne: "ts \<noteq> []" using nv ts(2) by auto
    obtain m where m: "double_mean ts = Fin m"
      "(1 - ?u) ^ Suc (length ts) * Min (set ts) \<le> m"
      "m \<le> (1 + ?u) ^ Suc (length ts) * Max (set ts)"
      using double_mean_bounds[OF ne ts(3)] by blast
    note v = part2[OF nv ts(1)]
    have "best (updateStats st) = Some (Fin (Min (set ts))) \<and>
          mean (updateStats st) = Some (Fin m) \<and>
          worst (updateStats st) = Some (Fin (Max (set ts))) \<and> Min (set ts) \<le> Max (set ts) \<and>
          (1 - ?u) ^ Suc (length (nonvoid_solves st)) * Min (set ts) \<le> m \<and>
          m \<le> (1 + ?u) ^ Suc (length (nonvoid_solves st)) * Max (set ts)"
      using v m ts(2) by simp
    then show ?thesis by blast
  qed
  show ?thesis using part1 part2[of rs] stats_no_data[of st] part3 part4 by blast
qed

text \<open>
  On the example session the effective times are 10000 and 14000 (the second carries the
  penalty) and the mean is 12000; the initial state has no session and no data.
\<close>

theorem updateStats_best_mean_worst_witness:
  "best (updateStats example_state) = Some (Fin 10000) \<and>
   worst (updateStats example_state) = Some (Fin 14000) \<and>
   mean (updateStats example_state) = Some (Fin 12000) \<and>
   (\<exists>b m w. best (updateStats example_state) = Some (Fin b) \<and>
        mean (updateStats example_state) = Some (Fin m) \<and>
        worst (updateStats example_state) = Some (Fin w) \<and> b \<le> w \<and>
        (1 - unit_roundoff) ^ 3 * b \<le> m \<and> m \<le> (1 + unit_roundoff) ^ 3 * w) \<and>
   best (updateStats State) = None \<and> worst (updateStats State) = None \<and>
   mean (updateStats State) = None"
proof -
  have e: "nonvoid_solves State = []"
    by (simp add: nonvoid_solves_def getCurrentSession_def State_def)
  have n: "nonvoid_solves example_state \<noteq> []" by (simp add: example_nonvoid)
  have l: "Suc (length (nonvoid_solves example_state)) = 3" by (simp add: example_nonvoid)
  have mm: "Min (set [10000::real, 14000]) = 10000" "Max (set [10000::real, 14000]) = 14000"
    by simp_all
  note a = updateStats_best_mean_worst [of example_state "[10000, 14000]"]
  note b = updateStats_best_mean_worst [of State "[]"]
  have w1: "best (updateStats example_state) = Some (Fin 10000)"
    "worst (updateStats example_state) = Some (Fin 14000)"
    using a n example_times unfolding mm by blast+
  have w2: "mean (updateStats example_state) = Some (Fin 12000)"
    using a n example_times unfolding example_mean by blast
  have w3: "\<exists>b m w. best (updateStats example_state) = Some (Fin b) \<and>
        mean (updateStats example_state) = Some (Fin m) \<and>
        worst (updateStats example_state) = Some (Fin w) \<and> b \<le> w \<and>
        (1 - unit_roundoff) ^ 3 * b \<le> m \<and> m \<le> (1 + unit_roundoff) ^ 3 * w"
    using a n example_ordinary_solves unfolding l by blast
  have w4: "best (updateStats State) = None \<and> worst (updateStats State) = None \<and>
   mean (updateStats State) = None"
    using b e by blast
  from w1 w2 w3 w4 show ?thesis by blast
qed

text \<open>
  The claim as it was worded, \<open>best \<le> mean \<le> worst\<close>, fails in double arithmetic on
  both sides. Typing \<open>2.01\<close> stores 2009.9999999999998; five such solves have the mean
  2009.9999999999995, below the best. Three solves of 5461.35 have the mean
  5461.350000000001, above the worst.
\<close>

theorem updateStats_best_mean_worst_counterexample:
  "parseTimeInput ''2.01'' = Some \<lparr>parsed_time = Fin typed_201, parsed_penalty = None\<rparr> \<and>
   best (updateStats (session_of [typed_201, typed_201, typed_201, typed_201, typed_201]))
     = Some (Fin typed_201) \<and>
   mean (updateStats (session_of [typed_201, typed_201, typed_201, typed_201, typed_201]))
     = Some (Fin (4420036743659519 / 2199023255552)) \<and>
   4420036743659519 / 2199023255552 < typed_201 \<and>
   worst (updateStats (session_of [double_546135, double_546135, double_546135]))
     = Some (Fin double_546135) \<and>
   mean (updateStats (session_of [double_546135, double_546135, double_546135]))
     = Some (Fin (6004817828354459 / 1099511627776)) \<and>
   double_546135 < 6004817828354459 / 1099511627776"
proof -
  let ?five = "[typed_201, typed_201, typed_201, typed_201, typed_201]"
  let ?three = "[double_546135, double_546135, double_546135]"
  have p: "parseTimeInput ''2.01''
             = Some \<lparr>parsed_time = Fin (8840073487319039 / 4398046511104), parsed_penalty = None\<rparr>"
    by code_simp
  have n5: "nonvoid_solves (session_of ?five) \<noteq> []" by (rule session_of_nonvoid) simp
  have n3: "nonvoid_solves (session_of ?three) \<noteq> []" by (rule session_of_nonvoid) simp
  note s5 = stats_values[OF n5 session_of_times]
  note s3 = stats_values[OF n3 session_of_times]
  have b5: "best (updateStats (session_of ?five)) = Some (Fin typed_201)"
    using s5(1) by simp
  have m5: "mean (updateStats (session_of ?five)) = Some (Fin (4420036743659519 / 2199023255552))"
    using s5(3) by (simp only: mean_five_typed)
  have w3: "worst (updateStats (session_of ?three)) = Some (Fin double_546135)"
    using s3(2) by simp
  have m3: "mean (updateStats (session_of ?three)) = Some (Fin (6004817828354459 / 1099511627776))"
    using s3(3) by (simp only: mean_three)
  have c5: "4420036743659519 / 2199023255552 < typed_201" by (simp add: typed_201_def)
  have c3: "double_546135 < 6004817828354459 / 1099511627776" by (simp add: double_546135_def)
  from p b5 m5 w3 m3 c5 c3 show ?thesis by (simp add: typed_201_def)
qed

end
